theory Spec2Isabelle
  imports Main "HOL-Library.AList"
begin

section \<open>Data model\<close>

text \<open>
  A shallow embedding of \<^verbatim>\<open>libs/SyconApi/src/sycon_api/sycon_api.py\<close>.

  Python dictionaries keep insertion order, and an assignment \<^verbatim>\<open>d[k] = v\<close> replaces the
  value of an existing key in place and appends a new key at the end: this is
  \<open>AList.update\<close> on an association list, and \<^verbatim>\<open>d.get(k)\<close> / \<^verbatim>\<open>k in d\<close> is \<open>map_of\<close>.
  Strings are lists of 8-bit characters.
\<close>

type_synonym 'v dict = "(string \<times> 'v) list"

text \<open>
  The values that \<^verbatim>\<open>response.json()\<close> can produce (floating point numbers left out).
  Python's \<^verbatim>\<open>None\<close> is \<open>JNull\<close>, a \<^verbatim>\<open>str\<close> is \<open>JStr\<close>, a \<^verbatim>\<open>dict\<close> is \<open>JObj\<close>.
\<close>

datatype json =
    JNull
  | JBool bool
  | JInt int
  | JStr string
  | JArr "json list"
  | JObj "(string \<times> json) list"

text \<open>The exceptions of the module, the one of tenacity, and the Python built-in ones
  that the modelled code can raise. \<open>RequestException\<close> stands for whatever
  \<^verbatim>\<open>requests.get\<close> / \<^verbatim>\<open>requests.post\<close> raise themselves (time-out, connection error).\<close>

datatype error =
    SyconApiInvalidParametersException string
  | SyconApiMissingParametersException string
  | SyconApiBadResponseException string
  | SyconApiServerErrorResponseException string
  | RetryError error
  | RequestException string
  | TypeError
  | AttributeError

datatype http_method = GET | POST

text \<open>Values of the query-string dictionary \<^verbatim>\<open>args\<close>: instants are strings, limits are ints.\<close>

datatype argval = AStr string | AInt int

text \<open>One HTTP request as handed to \<^verbatim>\<open>requests.get(url, params, headers, timeout=30)\<close> or
  \<^verbatim>\<open>requests.post(url, headers, data=dumps(data), timeout=30)\<close>.\<close>

record request =
  meth :: http_method
  url :: string
  req_headers :: "string dict"
  params :: "argval dict option"
  data :: "string dict option"

text \<open>A \<^verbatim>\<open>requests.Response\<close>, with the fields the module reads. \<open>json_data = None\<close>
  means that \<^verbatim>\<open>response.json()\<close> raises \<^verbatim>\<open>ValueError\<close>. \<open>resp_headers\<close> is read under the
  name that the code asks for; the case-insensitive matching of \<^verbatim>\<open>requests\<close> is part of
  that lookup.\<close>

record response =
  status_code :: int
  resp_headers :: "string dict"
  resp_text :: string
  json_data :: "json option"

datatype net_result = Reply response | Raises string

text \<open>
  The world outside the client: the server, a deterministic function of the requests it
  has seen so far and of the current request, and Python's built-in \<^verbatim>\<open>str\<close> on decoded
  values (used by f-strings, \<^verbatim>\<open>str.format\<close> and \<^verbatim>\<open>str(device_id)\<close>). Both are parameters:
  every theorem below holds for all of them.
\<close>

record env =
  net :: "request list \<Rightarrow> request \<Rightarrow> net_result"
  str_of :: "json \<Rightarrow> string"

text \<open>The immutable part of a \<^verbatim>\<open>SyconApi\<close> object. \<open>self_id\<close> is the object's identity
  (its hash, which \<^verbatim>\<open>lru_cache\<close> puts into the cache key).\<close>

record client =
  self_id :: nat
  username :: string
  password :: string
  server :: string

text \<open>
  The mutable part: \<^verbatim>\<open>self._token\<close>, plus two ghost logs. \<open>http_log\<close> holds every HTTP
  exchange in order (one entry per attempt), \<open>calls\<close> every invocation of the
  retry-decorated \<^verbatim>\<open>_get_request\<close> / \<^verbatim>\<open>_post_request\<close>. The logger is left out: it
  only writes log lines.
\<close>

record state =
  token :: "string option"
  http_log :: "request list"
  calls :: "request list"

definition SyconApi :: "nat \<Rightarrow> string \<Rightarrow> string \<Rightarrow> client" where
  "SyconApi i u p =
     \<lparr>self_id = i, username = u, password = p, server = ''https://cloud.sycon.io''\<rparr>"

definition init_state :: state where
  "init_state = \<lparr>token = None, http_log = [], calls = []\<rparr>"

definition k_size_batch_limit :: int where
  "k_size_batch_limit = 10000"

subsection \<open>Routes and fields\<close>

definition LOGIN :: string where "LOGIN = ''/auth/login''"
definition RENEW :: string where "RENEW = ''/auth/renew''"
definition CHECK :: string where "CHECK = ''/auth/check''"
definition DEVICES :: string where "DEVICES = ''/api/devices''"

text \<open>\<^verbatim>\<open>"/api/devices/{deviceId}/{field}/data/raw".format(deviceId=d, field=f)\<close>, on the
  string forms of the two arguments.\<close>

definition DATA :: "string \<Rightarrow> string \<Rightarrow> string" where
  "DATA deviceId field = ''/api/devices/'' @ deviceId @ ''/'' @ field @ ''/data/raw''"

datatype SyconApiDataFields =
    ACCELERATION_X_MS2
  | ACCELERATION_Y_MS2
  | ACCELERATION_Z_MS2
  | ACCELERATION_MAG_MAX_MS2
  | ACCELERATION_MAG_MEAN_MS2
  | ACCELERATION_MAG_VARIANCE_MS2
  | AIR_QUALITY_INDEX
  | CO2_PPM
  | HUMIDITY_PERCENT
  | PRESSURE_HPA
  | TEMPERATURE_CELSIUS
  | VOLATILE_ORGANIC_COMPOUND_PPM
  | EXT_CURRENT_AMP
  | EXT_ELECTRICAL_POWER_WATT
  | EXT_TEMPERATURE_CELSIUS
  | EXT_VOLTAGE_VOLT
  | EXT_HUMIDITY_PERCENT

fun field_value :: "SyconApiDataFields \<Rightarrow> string" where
  "field_value ACCELERATION_X_MS2 = ''ACCELERATION_X_MS2''"
| "field_value ACCELERATION_Y_MS2 = ''ACCELERATION_Y_MS2''"
| "field_value ACCELERATION_Z_MS2 = ''ACCELERATION_Z_MS2''"
| "field_value ACCELERATION_MAG_MAX_MS2 = ''ACCELERATION_MAG_MAX_MS2''"
| "field_value ACCELERATION_MAG_MEAN_MS2 = ''ACCELERATION_MAG_MEAN_MS2''"
| "field_value ACCELERATION_MAG_VARIANCE_MS2 = ''ACCELERATION_MAG_VARIANCE_MS2''"
| "field_value AIR_QUALITY_INDEX = ''AIR_QUALITY_INDEX''"
| "field_value CO2_PPM = ''CO2_PPM''"
| "field_value HUMIDITY_PERCENT = ''HUMIDITY_PERCENT''"
| "field_value PRESSURE_HPA = ''PRESSURE_HPA''"
| "field_value TEMPERATURE_CELSIUS = ''TEMPERATURE_CELSIUS''"
| "field_value VOLATILE_ORGANIC_COMPOUND_PPM = ''VOLATILE_ORGANIC_COMPOUND_PPM''"
| "field_value EXT_CURRENT_AMP = ''EXT_CURRENT_AMP''"
| "field_value EXT_ELECTRICAL_POWER_WATT = ''EXT_ELECTRICAL_POWER_WATT''"
| "field_value EXT_TEMPERATURE_CELSIUS = ''EXT_TEMPERATURE_CELSIUS''"
| "field_value EXT_VOLTAGE_VOLT = ''EXT_VOLTAGE_VOLT''"
| "field_value EXT_HUMIDITY_PERCENT = ''EXT_HUMIDITY_PERCENT''"

section \<open>Header helpers\<close>

text \<open>\<^verbatim>\<open>headers["Authorization"] = f"Bearer {token}"\<close>. The callers pass \<^verbatim>\<open>self._token\<close>, which
  is \<^verbatim>\<open>None\<close> until a login stored one; the f-string then prints \<^verbatim>\<open>None\<close>.\<close>

definition token_str :: "string option \<Rightarrow> string" where
  "token_str t = (case t of None \<Rightarrow> ''None'' | Some s \<Rightarrow> s)"

definition format_header_token :: "string option \<Rightarrow> string dict \<Rightarrow> string dict" where
  "format_header_token t hs = AList.update ''Authorization'' (''Bearer '' @ token_str t) hs"

definition format_header_content_type_json :: "string dict \<Rightarrow> string dict" where
  "format_header_content_type_json hs = AList.update ''Content-type'' ''application/json'' hs"

section \<open>Transport and retry policy\<close>

text \<open>The undecorated \<^verbatim>\<open>_get_request\<close> (Python's \<^verbatim>\<open>_get_request.__wrapped__\<close>): one HTTP
  exchange, then the classification of the status code.\<close>

definition classify :: "env \<Rightarrow> response \<Rightarrow> error + response" where
  "classify e rep =
     (if status_code rep \<ge> 500 \<and> status_code rep < 600 then
        Inl (SyconApiServerErrorResponseException
               (''Server error '' @ str_of e (JInt (status_code rep)) @ '' : '' @ resp_text rep))
      else if status_code rep \<ge> 400 \<and> status_code rep < 500 then
        Inl (SyconApiBadResponseException
               (''Invalid response from server '' @ str_of e (JInt (status_code rep))
                  @ '' : '' @ resp_text rep))
      else Inr rep)"

definition send :: "env \<Rightarrow> request \<Rightarrow> state \<Rightarrow> (error + response) \<times> state" where
  "send e req st =
     (let st' = st\<lparr>http_log := http_log st @ [req]\<rparr> in
      case net e (http_log st) req of
        Raises x \<Rightarrow> (Inl (RequestException x), st')
      | Reply rep \<Rightarrow> (classify e rep, st'))"

definition get_req :: "string dict \<Rightarrow> string \<Rightarrow> argval dict option \<Rightarrow> request" where
  "get_req hs u args = \<lparr>meth = GET, url = u, req_headers = hs, params = args, data = None\<rparr>"

definition post_req :: "string dict \<Rightarrow> string \<Rightarrow> string dict option \<Rightarrow> request" where
  "post_req hs u d = \<lparr>meth = POST, url = u, req_headers = hs, params = None, data = d\<rparr>"

definition get_request_wrapped ::
  "env \<Rightarrow> string dict \<Rightarrow> string \<Rightarrow> argval dict option \<Rightarrow> state \<Rightarrow> (error + response) \<times> state" where
  "get_request_wrapped e hs u args st = send e (get_req hs u args) st"

definition post_request_wrapped ::
  "env \<Rightarrow> string dict \<Rightarrow> string \<Rightarrow> string dict option \<Rightarrow> state \<Rightarrow> (error + response) \<times> state" where
  "post_request_wrapped e hs u d st = send e (post_req hs u d) st"

text \<open>
  tenacity's \<^verbatim>\<open>@retry(stop=stop_after_attempt(n), wait=..., retry=retry_if_exception_type(E))\<close>.
  The decorated function is called; a result is returned; an exception that is not an
  \<open>E\<close> is re-raised as it is; after an \<open>E\<close> the stop condition is asked
  (\<^verbatim>\<open>attempt_number >= n\<close>): when it holds, \<^verbatim>\<open>reraise\<close> being left at its default
  \<^verbatim>\<open>False\<close>, tenacity raises \<^verbatim>\<open>RetryError\<close> holding the last attempt; otherwise it sleeps
  (not modelled) and calls again with the next attempt number.
\<close>

definition retry_if_exception_type_ServerError :: "error \<Rightarrow> bool" where
  "retry_if_exception_type_ServerError x =
     (case x of SyconApiServerErrorResponseException _ \<Rightarrow> True | _ \<Rightarrow> False)"

function retry_loop ::
  "nat \<Rightarrow> nat \<Rightarrow> (state \<Rightarrow> (error + 'a) \<times> state) \<Rightarrow> state \<Rightarrow> (error + 'a) \<times> state" where
  "retry_loop stop_after_attempt attempt_number f st =
     (case f st of
        (Inr r, st') \<Rightarrow> (Inr r, st')
      | (Inl x, st') \<Rightarrow>
          if \<not> retry_if_exception_type_ServerError x then (Inl x, st')
          else if attempt_number \<ge> stop_after_attempt then (Inl (RetryError x), st')
          else retry_loop stop_after_attempt (Suc attempt_number) f st')"
  by pat_completeness auto
termination
  by (relation "measure (\<lambda>(n, k, f, st). n - k)") auto

declare retry_loop.simps [simp del]

definition retry :: "(state \<Rightarrow> (error + 'a) \<times> state) \<Rightarrow> state \<Rightarrow> (error + 'a) \<times> state" where
  "retry f st = retry_loop 3 1 f st"

text \<open>The decorated static methods, as the rest of the class calls them.\<close>

definition get_request ::
  "env \<Rightarrow> string dict \<Rightarrow> string \<Rightarrow> argval dict option \<Rightarrow> state \<Rightarrow> (error + response) \<times> state" where
  "get_request e hs u args st =
     retry (get_request_wrapped e hs u args) (st\<lparr>calls := calls st @ [get_req hs u args]\<rparr>)"

definition post_request ::
  "env \<Rightarrow> string dict \<Rightarrow> string \<Rightarrow> string dict option \<Rightarrow> state \<Rightarrow> (error + response) \<times> state" where
  "post_request e hs u d st =
     retry (post_request_wrapped e hs u d) (st\<lparr>calls := calls st @ [post_req hs u d]\<rparr>)"

section \<open>Session manager\<close>

text \<open>\<^verbatim>\<open>authenticate\<close>: the token is assigned \<^verbatim>\<open>response.headers.get("Authorization")\<close> on a
  200, whatever \<^verbatim>\<open>get\<close> returns; the method returns \<^verbatim>\<open>None\<close>.\<close>

definition authenticate :: "client \<Rightarrow> env \<Rightarrow> state \<Rightarrow> (error + unit) \<times> state" where
  "authenticate self e st =
     (let url = server self @ LOGIN;
          body = [(''username'', username self), (''password'', password self)];
          headers = format_header_content_type_json []
      in case post_request e headers url (Some body) st of
           (Inl x, st') \<Rightarrow> (Inl x, st')
         | (Inr response, st') \<Rightarrow>
             if status_code response = 200
             then (Inr (), st'\<lparr>token := map_of (resp_headers response) ''Authorization''\<rparr>)
             else (Inr (), st'))"

definition renew_token :: "client \<Rightarrow> env \<Rightarrow> state \<Rightarrow> (error + unit) \<times> state" where
  "renew_token self e st =
     (let url = server self @ RENEW;
          headers = format_header_token (token st) []
      in case get_request e headers url None st of
           (Inl x, st') \<Rightarrow> (Inl x, st')
         | (Inr response, st') \<Rightarrow>
             if status_code response = 200 then
               (if map_of (resp_headers response) ''Authorization'' = None
                then (Inl (SyconApiBadResponseException
                             ''Authorization token not in received response''), st')
                else (Inr (), st'\<lparr>token := map_of (resp_headers response) ''Authorization''\<rparr>))
             else (Inr (), st'))"

definition check_token :: "client \<Rightarrow> env \<Rightarrow> state \<Rightarrow> (error + bool) \<times> state" where
  "check_token self e st =
     (let url = server self @ CHECK;
          headers = format_header_token (token st) []
      in case get_request e headers url None st of
           (Inl x, st') \<Rightarrow> (Inl x, st')
         | (Inr response, st') \<Rightarrow> (Inr (status_code response = 200), st'))"

definition manage_token :: "client \<Rightarrow> env \<Rightarrow> state \<Rightarrow> (error + unit) \<times> state" where
  "manage_token self e st =
     (if token st \<noteq> None then
        (case check_token self e st of
           (Inl x, st') \<Rightarrow> (Inl x, st')
         | (Inr valid, st') \<Rightarrow> if \<not> valid then renew_token self e st' else (Inr (), st'))
      else authenticate self e st)"

section \<open>Validator\<close>

definition raise_on_threshold_presence :: "int option \<Rightarrow> int option \<Rightarrow> error + unit" where
  "raise_on_threshold_presence head_limit tail_limit =
     (if head_limit = None \<and> tail_limit = None then
        Inl (SyconApiMissingParametersException
               ''Either headLimit or tailLimit field is required'')
      else if head_limit \<noteq> None \<and> tail_limit \<noteq> None then
        Inl (SyconApiInvalidParametersException
               ''Either headLimit or tailLimit field is required, not both'')
      else Inr ())"

subsection \<open>The regular expression of the instant check\<close>

text \<open>
  The fragment of Python's \<^verbatim>\<open>re\<close> that the pattern
  \<^verbatim>\<open>^\d{4}-\d{2}-\d{2}T\d{2}:\d{2}:\d{2}(?:\.\d+)?Z$\<close> uses: a character class or literal,
  \<^verbatim>\<open>x{n}\<close>, \<^verbatim>\<open>x+\<close>, concatenation and \<^verbatim>\<open>(?:...)?\<close>. \<open>rmatch r s\<close> lists, in the
  order a backtracking matcher tries them, the rests of \<open>s\<close> after a match of \<open>r\<close> at its
  start; \<^verbatim>\<open>fullmatch\<close> succeeds when one of them is empty. Under \<^verbatim>\<open>fullmatch\<close> the two
  anchors hold exactly at the two ends of the string, so they are not part of the
  modelled pattern. On 8-bit characters \<^verbatim>\<open>\d\<close> is \<^verbatim>\<open>[0-9]\<close>.
\<close>

datatype cclass = Digit | Lit char

datatype regex =
    Atom cclass
  | Repeat cclass nat
  | Plus cclass
  | Concat "regex list"
  | Optional regex

fun cmatch :: "cclass \<Rightarrow> char \<Rightarrow> bool" where
  "cmatch Digit c = (c \<in> set ''0123456789'')"
| "cmatch (Lit a) c = (c = a)"

fun rmatch :: "regex \<Rightarrow> string \<Rightarrow> string list" where
  "rmatch (Atom c) s = (case s of [] \<Rightarrow> [] | x # xs \<Rightarrow> if cmatch c x then [xs] else [])"
| "rmatch (Repeat c n) s =
     (if n \<le> length s \<and> list_all (cmatch c) (take n s) then [drop n s] else [])"
| "rmatch (Plus c) s =
     map (\<lambda>k. drop k s) (rev [1 ..< Suc (length (takeWhile (cmatch c) s))])"
| "rmatch (Concat []) s = [s]"
| "rmatch (Concat (r # rs)) s = concat (map (rmatch (Concat rs)) (rmatch r s))"
| "rmatch (Optional r) s = rmatch r s @ [s]"

definition fullmatch :: "regex \<Rightarrow> string \<Rightarrow> bool" where
  "fullmatch r s = ([] \<in> set (rmatch r s))"

definition iso_instant_re :: regex where
  "iso_instant_re =
     Concat [Repeat Digit 4, Atom (Lit CHR ''-''), Repeat Digit 2, Atom (Lit CHR ''-''),
             Repeat Digit 2, Atom (Lit CHR ''T''), Repeat Digit 2, Atom (Lit CHR '':''),
             Repeat Digit 2, Atom (Lit CHR '':''), Repeat Digit 2,
             Optional (Concat [Atom (Lit CHR ''.''), Plus Digit]),
             Atom (Lit CHR ''Z'')]"

definition raise_on_date_ISO_8601_bad_format :: "string \<Rightarrow> error + unit" where
  "raise_on_date_ISO_8601_bad_format date =
     (if \<not> fullmatch iso_instant_re date then
        Inl (SyconApiInvalidParametersException
          ''date is not well formatted, use ISO-8601 instant format: YYYY-MM-DDTHH:MM:SS[.MS]Z'')
      else Inr ())"

text \<open>The instant form in the words of the specification:
  \<^verbatim>\<open>YYYY-MM-DDTHH:MM:SS[.fraction]Z\<close>, every letter of the date and time groups a decimal
  digit, the fraction a dot followed by one digit or more, the time zone the letter Z.\<close>

definition digits :: "string \<Rightarrow> bool" where
  "digits ds = (\<forall>c \<in> set ds. c \<in> set ''0123456789'')"

definition iso_instant_form :: "string \<Rightarrow> bool" where
  "iso_instant_form s =
     (\<exists>YYYY MM DD hh mm ss fraction.
        s = YYYY @ ''-'' @ MM @ ''-'' @ DD @ ''T'' @ hh @ '':'' @ mm @ '':'' @ ss @ fraction @ ''Z''
        \<and> length YYYY = 4 \<and> digits YYYY \<and> length MM = 2 \<and> digits MM
        \<and> length DD = 2 \<and> digits DD \<and> length hh = 2 \<and> digits hh
        \<and> length mm = 2 \<and> digits mm \<and> length ss = 2 \<and> digits ss
        \<and> (fraction = [] \<or> (\<exists>ds. fraction = ''.'' @ ds \<and> ds \<noteq> [] \<and> digits ds)))"

subsection \<open>Query arguments\<close>

text \<open>The parameters that the three data methods share, under their Python names.\<close>

record data_args =
  field :: SyconApiDataFields
  start_date :: string
  end_date :: string
  head_limit :: "int option"
  tail_limit :: "int option"
  external_sensor_id :: "string option"

definition fill_get_data_args ::
  "argval dict \<Rightarrow> string \<Rightarrow> string \<Rightarrow> int option \<Rightarrow> int option \<Rightarrow> string option \<Rightarrow> argval dict" where
  "fill_get_data_args args start_d end_d head_l tail_l ext =
     (let args = AList.update ''start'' (AStr start_d) args;
          args = AList.update ''end'' (AStr end_d) args;
          args = (case head_l of
                    None \<Rightarrow> args
                  | Some h \<Rightarrow>
                      AList.update ''headLimit''
                        (AInt (if h > k_size_batch_limit then k_size_batch_limit else h)) args);
          args = (case tail_l of
                    None \<Rightarrow> args
                  | Some t \<Rightarrow>
                      AList.update ''tailLimit''
                        (AInt (if t > k_size_batch_limit then k_size_batch_limit else t)) args)
      in case ext of None \<Rightarrow> args | Some x \<Rightarrow> AList.update ''externalSensorId'' (AStr x) args)"

text \<open>The first statements of every data method: the three checks, then the arguments.\<close>

definition validated_args :: "data_args \<Rightarrow> error + argval dict" where
  "validated_args q =
     (case raise_on_threshold_presence (head_limit q) (tail_limit q) of
        Inl x \<Rightarrow> Inl x
      | Inr _ \<Rightarrow>
     (case raise_on_date_ISO_8601_bad_format (start_date q) of
        Inl x \<Rightarrow> Inl x
      | Inr _ \<Rightarrow>
     (case raise_on_date_ISO_8601_bad_format (end_date q) of
        Inl x \<Rightarrow> Inl x
      | Inr _ \<Rightarrow>
          Inr (fill_get_data_args [] (start_date q) (end_date q) (head_limit q) (tail_limit q)
                 (external_sensor_id q)))))"

section \<open>Query dispatcher\<close>

text \<open>\<^verbatim>\<open>try: body = response.json() except ValueError: body = response.text\<close>\<close>

definition body_of :: "response \<Rightarrow> json" where
  "body_of response = (case json_data response of Some j \<Rightarrow> j | None \<Rightarrow> JStr (resp_text response))"

definition is_dict :: "json \<Rightarrow> bool" where
  "is_dict j = (case j of JObj _ \<Rightarrow> True | _ \<Rightarrow> False)"

definition get_devices_list :: "client \<Rightarrow> env \<Rightarrow> state \<Rightarrow> (error + json) \<times> state" where
  "get_devices_list self e st =
     (let url = server self @ DEVICES in
      case manage_token self e st of
        (Inl x, st1) \<Rightarrow> (Inl x, st1)
      | (Inr _, st1) \<Rightarrow>
          (let headers = format_header_token (token st1) [] in
           case get_request e headers url None st1 of
             (Inl x, st2) \<Rightarrow> (Inl x, st2)
           | (Inr response, st2) \<Rightarrow>
               if status_code response = 200 then
                 (case json_data response of
                    Some j \<Rightarrow> (Inr j, st2)
                  | None \<Rightarrow>
                      (Inl (SyconApiBadResponseException
                              (''Invalid response received from server for request '' @ url)), st2))
               else (Inr JNull, st2)))"

text \<open>The data request for one device, as all three methods build it.\<close>

definition data_request :: "client \<Rightarrow> string option \<Rightarrow> string \<Rightarrow> SyconApiDataFields \<Rightarrow> argval dict \<Rightarrow> request" where
  "data_request self tok device_id f args =
     get_req (format_header_token tok []) (server self @ DATA device_id (field_value f)) (Some args)"

definition get_data_from_device_wrapped ::
  "client \<Rightarrow> env \<Rightarrow> string \<Rightarrow> data_args \<Rightarrow> state \<Rightarrow> (error + json) \<times> state" where
  "get_data_from_device_wrapped self e device_id q st =
     (case validated_args q of
        Inl x \<Rightarrow> (Inl x, st)
      | Inr args \<Rightarrow>
     (case manage_token self e st of
        (Inl x, st1) \<Rightarrow> (Inl x, st1)
      | (Inr _, st1) \<Rightarrow>
          (let headers = format_header_token (token st1) [];
               url = server self @ DATA device_id (field_value (field q))
           in case get_request e headers url (Some args) st1 of
                (Inl x, st2) \<Rightarrow> (Inl x, st2)
              | (Inr response, st2) \<Rightarrow>
                  (let body = body_of response
                   in (Inr (if is_dict body then body else JNull), st2)))))"

fun devices_loop ::
  "client \<Rightarrow> env \<Rightarrow> SyconApiDataFields \<Rightarrow> argval dict \<Rightarrow> string list \<Rightarrow> json dict \<Rightarrow> state
     \<Rightarrow> (error + json dict) \<times> state" where
  "devices_loop self e f args [] data_acc st = (Inr data_acc, st)"
| "devices_loop self e f args (device_id # rest) data_acc st =
     (let headers = format_header_token (token st) [];
          url = server self @ DATA device_id (field_value f)
      in case get_request e headers url (Some args) st of
           (Inl x, st') \<Rightarrow> (Inl x, st')
         | (Inr response, st') \<Rightarrow>
             devices_loop self e f args rest
               (AList.update device_id (body_of response) data_acc) st')"

definition get_data_from_devices_wrapped ::
  "client \<Rightarrow> env \<Rightarrow> string list \<Rightarrow> data_args \<Rightarrow> state \<Rightarrow> (error + json dict) \<times> state" where
  "get_data_from_devices_wrapped self e devices_id q st =
     (case validated_args q of
        Inl x \<Rightarrow> (Inl x, st)
      | Inr args \<Rightarrow>
     (case manage_token self e st of
        (Inl x, st1) \<Rightarrow> (Inl x, st1)
      | (Inr _, st1) \<Rightarrow> devices_loop self e (field q) args devices_id [] st1))"

subsection \<open>Python's protocols on decoded values\<close>

text \<open>\<^verbatim>\<open>for device in devices\<close>: a list yields its elements, a dict its keys, a string its
  characters; \<^verbatim>\<open>None\<close>, a bool or an int is not iterable.\<close>

definition py_iter :: "json \<Rightarrow> error + json list" where
  "py_iter v =
     (case v of
        JArr xs \<Rightarrow> Inr xs
      | JObj kvs \<Rightarrow> Inr (map (\<lambda>p. JStr (fst p)) kvs)
      | JStr s \<Rightarrow> Inr (map (\<lambda>c. JStr [c]) s)
      | _ \<Rightarrow> Inl TypeError)"

fun is_substring :: "string \<Rightarrow> string \<Rightarrow> bool" where
  "is_substring p [] = (p = [])"
| "is_substring p (c # cs) = (take (length p) (c # cs) = p \<or> is_substring p cs)"

text \<open>\<^verbatim>\<open>"id" in device\<close>: key membership for a dict, element membership for a list, substring
  test for a string, \<^verbatim>\<open>TypeError\<close> otherwise.\<close>

definition py_contains :: "string \<Rightarrow> json \<Rightarrow> error + bool" where
  "py_contains k v =
     (case v of
        JObj kvs \<Rightarrow> Inr (map_of kvs k \<noteq> None)
      | JArr xs \<Rightarrow> Inr (JStr k \<in> set xs)
      | JStr s \<Rightarrow> Inr (is_substring k s)
      | _ \<Rightarrow> Inl TypeError)"

text \<open>\<^verbatim>\<open>device.get("id")\<close>: only a dict has the method.\<close>

definition py_get :: "string \<Rightarrow> json \<Rightarrow> error + json" where
  "py_get k v =
     (case v of
        JObj kvs \<Rightarrow> Inr (case map_of kvs k of Some x \<Rightarrow> x | None \<Rightarrow> JNull)
      | _ \<Rightarrow> Inl AttributeError)"

fun all_devices_loop ::
  "client \<Rightarrow> env \<Rightarrow> SyconApiDataFields \<Rightarrow> argval dict \<Rightarrow> json list \<Rightarrow> json dict \<Rightarrow> state
     \<Rightarrow> (error + json dict) \<times> state" where
  "all_devices_loop self e f args [] data_acc st = (Inr data_acc, st)"
| "all_devices_loop self e f args (device # rest) data_acc st =
     (case py_contains ''id'' device of
        Inl x \<Rightarrow> (Inl x, st)
      | Inr False \<Rightarrow> all_devices_loop self e f args rest data_acc st
      | Inr True \<Rightarrow>
     (case py_get ''id'' device of
        Inl x \<Rightarrow> (Inl x, st)
      | Inr device_id \<Rightarrow>
          (let headers = format_header_token (token st) [];
               url = server self @ DATA (str_of e device_id) (field_value f)
           in case get_request e headers url (Some args) st of
                (Inl x, st') \<Rightarrow> (Inl x, st')
              | (Inr response, st') \<Rightarrow>
                  all_devices_loop self e f args rest
                    (AList.update (str_of e device_id) (body_of response) data_acc) st')))"

definition get_data_from_all_devices_wrapped ::
  "client \<Rightarrow> env \<Rightarrow> data_args \<Rightarrow> state \<Rightarrow> (error + json dict) \<times> state" where
  "get_data_from_all_devices_wrapped self e q st =
     (case validated_args q of
        Inl x \<Rightarrow> (Inl x, st)
      | Inr args \<Rightarrow>
     (case manage_token self e st of
        (Inl x, st1) \<Rightarrow> (Inl x, st1)
      | (Inr _, st1) \<Rightarrow>
     (case get_devices_list self e st1 of
        (Inl x, st2) \<Rightarrow> (Inl x, st2)
      | (Inr devices, st2) \<Rightarrow>
     (case py_iter devices of
        Inl x \<Rightarrow> (Inl x, st2)
      | Inr ds \<Rightarrow> all_devices_loop self e (field q) args ds [] st2))))"

section \<open>Result cache\<close>

text \<open>
  \<^verbatim>\<open>functools.lru_cache(maxsize)\<close> around a function: the cache is an association list
  with the most recently used entry first. A hit moves the entry to the front and
  returns its result without calling the function. On a miss the function is called; an
  exception leaves the cache as it was; a result is stored, the least recently used
  entry being dropped when the cache is full. The cache belongs to the decorated
  function, not to the client object, so it is a component of its own beside the state.
\<close>

type_synonym ('k, 'v) lru = "('k \<times> 'v) list"

definition lru_cache ::
  "nat \<Rightarrow> 'k \<Rightarrow> (state \<Rightarrow> (error + 'v) \<times> state) \<Rightarrow> ('k, 'v) lru \<times> state
     \<Rightarrow> (error + 'v) \<times> (('k, 'v) lru \<times> state)" where
  "lru_cache maxsize key f cs =
     (case cs of (cache, st) \<Rightarrow>
       (case map_of cache key of
          Some result \<Rightarrow> (Inr result, ((key, result) # filter (\<lambda>p. fst p \<noteq> key) cache, st))
        | None \<Rightarrow>
            (case f st of
               (Inl x, st') \<Rightarrow> (Inl x, (cache, st'))
             | (Inr result, st') \<Rightarrow>
                 (Inr result,
                  (if length cache \<ge> maxsize then (key, result) # butlast cache
                   else (key, result) # cache, st')))))"

text \<open>The three public data methods, each with a cache of its own, keyed by the object
  and the values of the call's arguments. (Python's key also records whether an argument
  is passed by position or by keyword; the calls compared here pass them the same way.)\<close>

type_synonym device_key = "nat \<times> string \<times> data_args"
type_synonym devices_key = "nat \<times> string list \<times> data_args"
type_synonym all_devices_key = "nat \<times> data_args"

definition get_data_from_device ::
  "client \<Rightarrow> env \<Rightarrow> string \<Rightarrow> data_args \<Rightarrow> (device_key, json) lru \<times> state
     \<Rightarrow> (error + json) \<times> ((device_key, json) lru \<times> state)" where
  "get_data_from_device self e device_id q =
     lru_cache 10 (self_id self, device_id, q) (get_data_from_device_wrapped self e device_id q)"

definition get_data_from_devices ::
  "client \<Rightarrow> env \<Rightarrow> string list \<Rightarrow> data_args \<Rightarrow> (devices_key, json dict) lru \<times> state
     \<Rightarrow> (error + json dict) \<times> ((devices_key, json dict) lru \<times> state)" where
  "get_data_from_devices self e devices_id q =
     lru_cache 10 (self_id self, devices_id, q) (get_data_from_devices_wrapped self e devices_id q)"

definition get_data_from_all_devices ::
  "client \<Rightarrow> env \<Rightarrow> data_args \<Rightarrow> (all_devices_key, json dict) lru \<times> state
     \<Rightarrow> (error + json dict) \<times> ((all_devices_key, json dict) lru \<times> state)" where
  "get_data_from_all_devices self e q =
     lru_cache 10 (self_id self, q) (get_data_from_all_devices_wrapped self e q)"

section \<open>Vocabulary of the properties\<close>

text \<open>The two classes of status codes that the transport turns into exceptions, the
  exceptions it raises for them, and the effect of a call on the two logs.\<close>

definition server_error_status :: "response \<Rightarrow> bool" where
  "server_error_status rep = (500 \<le> status_code rep \<and> status_code rep < 600)"

definition client_error_status :: "response \<Rightarrow> bool" where
  "client_error_status rep = (400 \<le> status_code rep \<and> status_code rep < 500)"

definition server_error_of :: "env \<Rightarrow> response \<Rightarrow> error" where
  "server_error_of e rep = SyconApiServerErrorResponseException
               (''Server error '' @ str_of e (JInt (status_code rep)) @ '' : '' @ resp_text rep)"

definition bad_response_of :: "env \<Rightarrow> response \<Rightarrow> error" where
  "bad_response_of e rep = SyconApiBadResponseException
               (''Invalid response from server '' @ str_of e (JInt (status_code rep))
                  @ '' : '' @ resp_text rep)"

definition logged :: "request list \<Rightarrow> request list \<Rightarrow> state \<Rightarrow> state" where
  "logged cs hs st = st\<lparr>http_log := http_log st @ hs, calls := calls st @ cs\<rparr>"

text \<open>Concrete values for the examples: the response constructor of the test suite, a
  server that gives one fixed answer, and an instance of \<open>str_of\<close> that is Python's
  \<^verbatim>\<open>str\<close> on \<^verbatim>\<open>None\<close>, bools, ints and strings.\<close>

definition FakeResponse :: "int \<Rightarrow> json option \<Rightarrow> string \<Rightarrow> string dict \<Rightarrow> response" where
  "FakeResponse status_code' json_data' text' headers' =
     \<lparr>status_code = status_code', resp_headers = headers', resp_text = text',
      json_data = json_data'\<rparr>"

fun str_nat :: "nat \<Rightarrow> string" where
  "str_nat n =
     (if n < 10 then [''0123456789'' ! n]
      else str_nat (n div 10) @ [''0123456789'' ! (n mod 10)])"

declare str_nat.simps [simp del]

definition str_atoms :: "json \<Rightarrow> string" where
  "str_atoms v =
     (case v of
        JNull \<Rightarrow> ''None''
      | JBool b \<Rightarrow> (if b then ''True'' else ''False'')
      | JInt i \<Rightarrow> (if i < 0 then ''-'' @ str_nat (nat (- i)) else str_nat (nat i))
      | JStr s \<Rightarrow> s
      | JArr _ \<Rightarrow> ''[...]''
      | JObj _ \<Rightarrow> ''{...}'')"

definition always :: "response \<Rightarrow> env" where
  "always rep = \<lparr>net = (\<lambda>seen req. Reply rep), str_of = str_atoms\<rparr>"

text \<open>The requests of the session manager, written out: the header dictionary with the
  bearer credential, and the check, renew and login requests (the lemmas
  \<open>check_token_eq\<close>, \<open>renew_token_eq\<close> and \<open>authenticate_eq\<close> show that these are the
  requests that the three methods build).\<close>

definition bearer :: "string option \<Rightarrow> string dict" where
  "bearer t = [(''Authorization'', ''Bearer '' @ token_str t)]"

definition check_req :: "client \<Rightarrow> state \<Rightarrow> request" where
  "check_req self st = get_req (bearer (token st)) (server self @ ''/auth/check'') None"

definition renew_req :: "client \<Rightarrow> state \<Rightarrow> request" where
  "renew_req self st = get_req (bearer (token st)) (server self @ ''/auth/renew'') None"

definition login_req :: "client \<Rightarrow> request" where
  "login_req self =
     post_req [(''Content-type'', ''application/json'')] (server self @ ''/auth/login'')
       (Some [(''username'', username self), (''password'', password self)])"

text \<open>The three validation failures, and the characters that an instant can contain.\<close>

definition date_format_error :: error where
  "date_format_error = SyconApiInvalidParametersException
     ''date is not well formatted, use ISO-8601 instant format: YYYY-MM-DDTHH:MM:SS[.MS]Z''"

definition missing_limit_error :: error where
  "missing_limit_error = SyconApiMissingParametersException
     ''Either headLimit or tailLimit field is required''"

definition both_limits_error :: error where
  "both_limits_error = SyconApiInvalidParametersException
     ''Either headLimit or tailLimit field is required, not both''"


text \<open>The invalid queries in the words of the claims (both limits absent, both present,
  a start or end that is not an instant), the failures that validation raises, and the
  caches that hold no invalid query.\<close>

definition invalid_query :: "data_args \<Rightarrow> bool" where
  "invalid_query q =
     ((head_limit q = None \<and> tail_limit q = None)
      \<or> (head_limit q \<noteq> None \<and> tail_limit q \<noteq> None)
      \<or> \<not> iso_instant_form (start_date q)
      \<or> \<not> iso_instant_form (end_date q))"

definition is_validation_failure :: "error \<Rightarrow> bool" where
  "is_validation_failure x =
     (x = missing_limit_error \<or> x = both_limits_error \<or> x = date_format_error)"

definition caches_valid_only :: "('k \<Rightarrow> data_args) \<Rightarrow> ('k, 'v) lru \<Rightarrow> bool" where
  "caches_valid_only args_of cache = (\<forall>p \<in> set cache. \<not> invalid_query (args_of (fst p)))"




definition temperature_query :: data_args where
  "temperature_query = \<lparr>field = TEMPERATURE_CELSIUS, start_date = ''2025-10-03T12:30:00.000Z'',
     end_date = ''2025-10-03T13:30:00.000Z'', head_limit = Some 1, tail_limit = None,
     external_sensor_id = None\<rparr>"

definition temperature_args :: "argval dict" where
  "temperature_args = [(''start'', AStr ''2025-10-03T12:30:00.000Z''),
     (''end'', AStr ''2025-10-03T13:30:00.000Z''), (''headLimit'', AInt 1)]"




text \<open>The identifier of a device record, when it has one, and the identifiers present in
  a device list, in its order.\<close>

definition record_id :: "json \<Rightarrow> json option" where
  "record_id device = (case device of JObj kvs \<Rightarrow> map_of kvs ''id'' | _ \<Rightarrow> None)"

definition present_ids :: "json list \<Rightarrow> json list" where
  "present_ids devices = List.map_filter record_id devices"

text \<open>For the example of the all-devices method: a server that lists the two records of
  the specification's example and answers every data request with the same object, and
  the request and the session states of the run.\<close>

definition device_server :: env where
  "device_server =
     \<lparr>net = (\<lambda>seen req.
         if url req = ''https://cloud.sycon.io/api/devices'' then
           Reply (FakeResponse 200
                    (Some (JArr [JObj [(''foo'', JStr ''bar'')], JObj [(''id'', JStr ''d1'')]])) [] [])
         else if params req \<noteq> None then
           Reply (FakeResponse 200 (Some (JObj [(''v'', JInt 1)])) [] [])
         else Reply (FakeResponse 200 None [] [(''Authorization'', ''tok'')])),
      str_of = str_atoms\<rparr>"


definition devices_req :: "client \<Rightarrow> state \<Rightarrow> request" where
  "devices_req self st = get_req (bearer (token st)) (server self @ ''/api/devices'') None"

definition session :: "string \<Rightarrow> request list \<Rightarrow> state" where
  "session tok rs = \<lparr>token = Some tok, http_log = rs, calls = rs\<rparr>"

text \<open>\<open>sends_bearer tok st st'\<close>: from \<open>st\<close> to \<open>st'\<close> the transport was called a number of
  times, each time with the one header \<^verbatim>\<open>Authorization: Bearer tok\<close>.\<close>

definition sends_bearer :: "string option \<Rightarrow> state \<Rightarrow> state \<Rightarrow> bool" where
  "sends_bearer tok st st' =
     (\<exists>new. calls st' = calls st @ new \<and> (\<forall>r \<in> set new. req_headers r = bearer tok))"

section \<open>Transport and retry policy: properties\<close>

lemma classify_cases:
  "classify e rep =
     (if server_error_status rep then Inl (server_error_of e rep)
      else if client_error_status rep then Inl (bad_response_of e rep) else Inr rep)"
  by (simp add: classify_def server_error_status_def client_error_status_def
      server_error_of_def bad_response_of_def)

lemma send_Reply:
  "net e (http_log st) req = Reply rep \<Longrightarrow>
     send e req st = (classify e rep, st\<lparr>http_log := http_log st @ [req]\<rparr>)"
  by (simp add: send_def Let_def)

lemma send_Raises:
  "net e (http_log st) req = Raises x \<Longrightarrow>
     send e req st = (Inl (RequestException x), st\<lparr>http_log := http_log st @ [req]\<rparr>)"
  by (simp add: send_def Let_def)

lemma retry_first_ok:
  "f st = (Inr r, st') \<Longrightarrow> retry f st = (Inr r, st')"
  by (simp add: retry_def retry_loop.simps)

lemma retry_first_other:
  "f st = (Inl x, st') \<Longrightarrow> \<not> retry_if_exception_type_ServerError x \<Longrightarrow> retry f st = (Inl x, st')"
  by (simp add: retry_def retry_loop.simps)

lemma retry_three:
  "f st = (Inl x1, st1) \<Longrightarrow> retry_if_exception_type_ServerError x1 \<Longrightarrow>
   f st1 = (Inl x2, st2) \<Longrightarrow> retry_if_exception_type_ServerError x2 \<Longrightarrow>
   f st2 = (Inl x3, st3) \<Longrightarrow> retry_if_exception_type_ServerError x3 \<Longrightarrow>
   retry f st = (Inl (RetryError x3), st3)"
  by (simp add: retry_def retry_loop.simps[of _ 1] retry_loop.simps[of _ 2] retry_loop.simps[of _ 3]
       retry_loop.simps[of _ "Suc 0"] retry_loop.simps[of _ "Suc (Suc 0)"] retry_loop.simps[of _ "Suc (Suc (Suc 0))"]
       eval_nat_numeral)

lemma retry_unfold:
  "retry f st =
    (case f st of (Inr r, st1) \<Rightarrow> (Inr r, st1)
     | (Inl x1, st1) \<Rightarrow> if \<not> retry_if_exception_type_ServerError x1 then (Inl x1, st1) else
    (case f st1 of (Inr r, st2) \<Rightarrow> (Inr r, st2)
     | (Inl x2, st2) \<Rightarrow> if \<not> retry_if_exception_type_ServerError x2 then (Inl x2, st2) else
    (case f st2 of (Inr r, st3) \<Rightarrow> (Inr r, st3)
     | (Inl x3, st3) \<Rightarrow> if \<not> retry_if_exception_type_ServerError x3 then (Inl x3, st3) else (Inl (RetryError x3), st3))))"
  unfolding retry_def
  apply (subst retry_loop.simps)
  apply (subst retry_loop.simps)
  apply (subst retry_loop.simps)
  apply (simp cong: if_cong sum.case_cong prod.case_cong)
  done

lemma logged_simps [simp]:
  "token (logged cs hs st) = token st"
  "http_log (logged cs hs st) = http_log st @ hs"
  "calls (logged cs hs st) = calls st @ cs"
  by (simp_all add: logged_def)

lemma server_error_retry [simp]: "retry_if_exception_type_ServerError (server_error_of e rep)"
  by (simp add: retry_if_exception_type_ServerError_def server_error_of_def)

lemma bad_response_no_retry [simp]: "\<not> retry_if_exception_type_ServerError (bad_response_of e rep)"
  by (simp add: retry_if_exception_type_ServerError_def bad_response_of_def)

lemma request_exception_no_retry [simp]: "\<not> retry_if_exception_type_ServerError (RequestException x)"
  by (simp add: retry_if_exception_type_ServerError_def)

lemma status_disjoint: "client_error_status rep \<Longrightarrow> \<not> server_error_status rep"
  by (simp add: client_error_status_def server_error_status_def)

text \<open>The retried transport on an arbitrary request, by the answer to the first attempt.\<close>

lemma retried_send_ok:
  assumes "net e (http_log st) req = Reply rep" "\<not> server_error_status rep" "\<not> client_error_status rep"
  shows "retry (send e req) (st\<lparr>calls := calls st @ [req]\<rparr>) = (Inr rep, logged [req] [req] st)"
proof -
  have "send e req (st\<lparr>calls := calls st @ [req]\<rparr>) = (Inr rep, logged [req] [req] st)"
    using assms by (simp add: send_Reply classify_cases logged_def)
  then show ?thesis by (rule retry_first_ok)
qed

lemma retried_send_4xx:
  assumes "net e (http_log st) req = Reply rep" "client_error_status rep"
  shows "retry (send e req) (st\<lparr>calls := calls st @ [req]\<rparr>) = (Inl (bad_response_of e rep), logged [req] [req] st)"
proof -
  have "send e req (st\<lparr>calls := calls st @ [req]\<rparr>) = (Inl (bad_response_of e rep), logged [req] [req] st)"
    using assms by (simp add: send_Reply classify_cases logged_def status_disjoint)
  then show ?thesis by (rule retry_first_other) simp
qed

lemma retried_send_raises:
  assumes "net e (http_log st) req = Raises x"
  shows "retry (send e req) (st\<lparr>calls := calls st @ [req]\<rparr>) = (Inl (RequestException x), logged [req] [req] st)"
proof -
  have "send e req (st\<lparr>calls := calls st @ [req]\<rparr>) = (Inl (RequestException x), logged [req] [req] st)"
    using assms by (simp add: send_Raises logged_def)
  then show ?thesis by (rule retry_first_other) simp
qed

lemma retried_send_5xx3:
  assumes "net e (http_log st) req = Reply r1" "server_error_status r1"
      and "net e (http_log st @ [req]) req = Reply r2" "server_error_status r2"
      and "net e (http_log st @ [req, req]) req = Reply r3" "server_error_status r3"
  shows "retry (send e req) (st\<lparr>calls := calls st @ [req]\<rparr>)
           = (Inl (RetryError (server_error_of e r3)), logged [req] [req, req, req] st)"
proof -
  let ?s0 = "st\<lparr>calls := calls st @ [req]\<rparr>"
  have 1: "send e req ?s0 = (Inl (server_error_of e r1), logged [req] [req] st)"
    using assms(1,2) by (simp add: send_Reply classify_cases logged_def)
  have 2: "send e req (logged [req] [req] st) = (Inl (server_error_of e r2), logged [req] [req, req] st)"
    using assms(3,4) by (simp add: send_Reply classify_cases logged_def)
  have 3: "send e req (logged [req] [req, req] st) = (Inl (server_error_of e r3), logged [req] [req, req, req] st)"
    using assms(5,6) by (simp add: send_Reply classify_cases logged_def)
  show ?thesis by (rule retry_three[OF 1 _ 2 _ 3]) simp_all
qed

text \<open>A call of the retried transport makes between one and three exchanges.\<close>

lemma send_state: "snd (send e req st) = st\<lparr>http_log := http_log st @ [req]\<rparr>"
  by (simp add: send_def Let_def split: net_result.splits)

lemma retried_send_state:
  "\<exists>n. 1 \<le> n \<and> n \<le> 3 \<and>
     snd (retry (send e req) st) = st\<lparr>http_log := http_log st @ replicate n req\<rparr>"
proof -
  obtain r1 where s1: "send e req st = (r1, st\<lparr>http_log := http_log st @ [req]\<rparr>)"
    using send_state[of e req st] by (cases "send e req st") simp
  let ?st1 = "st\<lparr>http_log := http_log st @ [req]\<rparr>"
  obtain r2 where s2: "send e req ?st1 = (r2, st\<lparr>http_log := http_log st @ [req, req]\<rparr>)"
    using send_state[of e req ?st1] by (cases "send e req ?st1") simp
  let ?st2 = "st\<lparr>http_log := http_log st @ [req, req]\<rparr>"
  obtain r3 where s3: "send e req ?st2 = (r3, st\<lparr>http_log := http_log st @ [req, req, req]\<rparr>)"
    using send_state[of e req ?st2] by (cases "send e req ?st2") simp
  have "snd (retry (send e req) st) = ?st1 \<or> snd (retry (send e req) st) = ?st2
        \<or> snd (retry (send e req) st) = st\<lparr>http_log := http_log st @ [req, req, req]\<rparr>"
    by (simp add: retry_unfold s1 s2 s3 split: sum.splits)
  then consider
      (one) "snd (retry (send e req) st) = ?st1"
    | (two) "snd (retry (send e req) st) = ?st2"
    | (three) "snd (retry (send e req) st) = st\<lparr>http_log := http_log st @ [req, req, req]\<rparr>"
    by blast
  then show ?thesis
  proof cases
    case one
    then show ?thesis by (intro exI[of _ 1]) simp
  next
    case two
    then show ?thesis by (intro exI[of _ 2]) (simp add: numeral_2_eq_2)
  next
    case three
    then show ?thesis by (intro exI[of _ 3]) (simp add: numeral_3_eq_3)
  qed
qed

lemma get_request_eq:
  "get_request e hs u args st = retry (send e (get_req hs u args)) (st\<lparr>calls := calls st @ [get_req hs u args]\<rparr>)"
  by (simp add: get_request_def get_request_wrapped_def[abs_def])

lemma post_request_eq:
  "post_request e hs u d st = retry (send e (post_req hs u d)) (st\<lparr>calls := calls st @ [post_req hs u d]\<rparr>)"
  by (simp add: post_request_def post_request_wrapped_def[abs_def])

lemma retried_send_calls_state:
  "\<exists>n. 1 \<le> n \<and> n \<le> 3 \<and>
     snd (retry (send e req) (st\<lparr>calls := calls st @ [req]\<rparr>)) = logged [req] (replicate n req) st"
  using retried_send_state[of e req "st\<lparr>calls := calls st @ [req]\<rparr>"]
  by (auto simp: logged_def)

lemma retried_send_5xx_then_ok:
  assumes "net e (http_log st) req = Reply r1" "server_error_status r1"
      and "net e (http_log st @ [req]) req = Reply r2" "\<not> server_error_status r2" "\<not> client_error_status r2"
  shows "retry (send e req) (st\<lparr>calls := calls st @ [req]\<rparr>) = (Inr r2, logged [req] [req, req] st)"
proof -
  let ?s0 = "st\<lparr>calls := calls st @ [req]\<rparr>"
  have 1: "send e req ?s0 = (Inl (server_error_of e r1), logged [req] [req] st)"
    using assms(1,2) by (simp add: send_Reply classify_cases logged_def)
  have 2: "send e req (logged [req] [req] st) = (Inr r2, logged [req] [req, req] st)"
    using assms(3,4,5) by (simp add: send_Reply classify_cases logged_def)
  show ?thesis by (simp add: retry_unfold 1 2)
qed

text \<open>
  Claim C2, as amended. For every request sent through the retry-decorated
  \<^verbatim>\<open>_get_request\<close> or \<^verbatim>\<open>_post_request\<close>, whatever the server and the state:
  \<^item> when the server answers three attempts in a row with a 5xx status, exactly three
    HTTP exchanges take place and tenacity's \<open>RetryError\<close>, holding the
    \<open>ServerError\<close> of the third attempt, reaches the caller;
  \<^item> a 5xx followed by a status outside 400..599 returns the second response after two
    exchanges (a \<open>ServerError\<close> is retried);
  \<^item> a 4xx on the first attempt raises \<open>BadResponse\<close> after exactly one exchange;
  \<^item> a failure of the HTTP library on the first attempt propagates after exactly one
    exchange;
  \<^item> in every case the call makes between one and three exchanges, all of the same
    request, and is logged as one call.
\<close>

theorem retry_policy:
  assumes "(run = get_request e hs u args \<and> req = get_req hs u args)
         \<or> (run = post_request e hs u d \<and> req = post_req hs u d)"
  shows "(\<forall>r1 r2 r3.
            net e (http_log st) req = Reply r1 \<and> server_error_status r1 \<and>
            net e (http_log st @ [req]) req = Reply r2 \<and> server_error_status r2 \<and>
            net e (http_log st @ [req, req]) req = Reply r3 \<and> server_error_status r3 \<longrightarrow>
            run st = (Inl (RetryError (server_error_of e r3)), logged [req] [req, req, req] st))
       \<and> (\<forall>r1 r2.
            net e (http_log st) req = Reply r1 \<and> server_error_status r1 \<and>
            net e (http_log st @ [req]) req = Reply r2 \<and>
            \<not> server_error_status r2 \<and> \<not> client_error_status r2 \<longrightarrow>
            run st = (Inr r2, logged [req] [req, req] st))
       \<and> (\<forall>r. net e (http_log st) req = Reply r \<and> client_error_status r \<longrightarrow>
            run st = (Inl (bad_response_of e r), logged [req] [req] st))
       \<and> (\<forall>x. net e (http_log st) req = Raises x \<longrightarrow>
            run st = (Inl (RequestException x), logged [req] [req] st))
       \<and> (\<exists>n. 1 \<le> n \<and> n \<le> 3 \<and> snd (run st) = logged [req] (replicate n req) st)"
proof -
  have run: "run st = retry (send e req) (st\<lparr>calls := calls st @ [req]\<rparr>)"
    using assms by (auto simp: get_request_eq post_request_eq)
  show ?thesis
    unfolding run
    using retried_send_5xx3[of e st req] retried_send_5xx_then_ok[of e st req]
      retried_send_4xx[of e st req] retried_send_raises[of e st req]
      retried_send_calls_state[of e req st]
    by blast
qed

lemma str_503: "str_atoms (JInt 503) = ''503''"
  by (simp add: str_atoms_def str_nat.simps)

lemma str_404: "str_atoms (JInt 404) = ''404''"
  by (simp add: str_atoms_def str_nat.simps)

text \<open>The two cases of the test suite, 503 and 404, evaluated.\<close>

theorem retry_policy_witness:
  "get_request (always (FakeResponse 503 None ''srv error'' [])) [] ''http://x'' (Some []) init_state
     = (Inl (RetryError (SyconApiServerErrorResponseException ''Server error 503 : srv error'')),
        \<lparr>token = None,
         http_log = [get_req [] ''http://x'' (Some []), get_req [] ''http://x'' (Some []),
                     get_req [] ''http://x'' (Some [])],
         calls = [get_req [] ''http://x'' (Some [])]\<rparr>)
   \<and> get_request (always (FakeResponse 404 None ''not found'' [])) [] ''http://x'' (Some []) init_state
     = (Inl (SyconApiBadResponseException ''Invalid response from server 404 : not found''),
        \<lparr>token = None, http_log = [get_req [] ''http://x'' (Some [])],
         calls = [get_req [] ''http://x'' (Some [])]\<rparr>)"
proof -
  let ?req = "get_req [] ''http://x'' (Some [])"
  have a: "get_request (always (FakeResponse 503 None ''srv error'' [])) [] ''http://x'' (Some []) = get_request (always (FakeResponse 503 None ''srv error'' [])) [] ''http://x'' (Some []) \<and> ?req = ?req \<or> 
     get_request (always (FakeResponse 503 None ''srv error'' [])) [] ''http://x'' (Some []) = post_request (always (FakeResponse 503 None ''srv error'' [])) [] ''http://x'' None \<and> ?req = post_req [] ''http://x'' None" by simp
  have b: "get_request (always (FakeResponse 404 None ''not found'' [])) [] ''http://x'' (Some []) = get_request (always (FakeResponse 404 None ''not found'' [])) [] ''http://x'' (Some []) \<and> ?req = ?req \<or> 
     get_request (always (FakeResponse 404 None ''not found'' [])) [] ''http://x'' (Some []) = post_request (always (FakeResponse 404 None ''not found'' [])) [] ''http://x'' None \<and> ?req = post_req [] ''http://x'' None" by simp
  show ?thesis
    using retry_policy[OF a, of init_state] retry_policy[OF b, of init_state]
    by (simp add: always_def FakeResponse_def server_error_status_def client_error_status_def
        server_error_of_def bad_response_of_def logged_def init_state_def str_503 str_404)
qed

text \<open>Claim C2 as stated fails: after three 503 answers the caller does not receive a
  \<open>ServerError\<close>, whatever its message.\<close>

theorem retry_exhausted_raises_RetryError:
  "\<not> (\<exists>msg. fst (get_request (always (FakeResponse 503 None ''srv error'' [])) [] ''http://x'' (Some [])
               init_state) = Inl (SyconApiServerErrorResponseException msg))"
proof -
  let ?e = "always (FakeResponse 503 None ''srv error'' [])"
  let ?req = "get_req [] ''http://x'' (Some [])"
  have "net ?e h ?req = Reply (FakeResponse 503 None ''srv error'' [])" for h
    by (simp add: always_def)
  moreover have "server_error_status (FakeResponse 503 None ''srv error'' [])"
    by (simp add: server_error_status_def FakeResponse_def)
  ultimately have "get_request ?e [] ''http://x'' (Some []) init_state
      = (Inl (RetryError (server_error_of ?e (FakeResponse 503 None ''srv error'' []))),
         logged [?req] [?req, ?req, ?req] init_state)"
    unfolding get_request_eq by (intro retried_send_5xx3) auto
  then show ?thesis by simp
qed

section \<open>Session manager: properties\<close>

lemma format_header_token_empty: "format_header_token t [] = bearer t"
  by (simp add: format_header_token_def bearer_def)

lemma format_header_content_type_json_empty:
  "format_header_content_type_json [] = [(''Content-type'', ''application/json'')]"
  by (simp add: format_header_content_type_json_def)

lemma check_token_eq:
  "check_token self e st =
     (case retry (send e (check_req self st)) (st\<lparr>calls := calls st @ [check_req self st]\<rparr>) of
        (Inl x, st') \<Rightarrow> (Inl x, st')
      | (Inr response, st') \<Rightarrow> (Inr (status_code response = 200), st'))"
  by (simp add: Let_def check_token_def get_request_eq check_req_def format_header_token_empty CHECK_def)

lemma renew_token_eq:
  "renew_token self e st =
     (case retry (send e (renew_req self st)) (st\<lparr>calls := calls st @ [renew_req self st]\<rparr>) of
        (Inl x, st') \<Rightarrow> (Inl x, st')
      | (Inr response, st') \<Rightarrow>
          if status_code response = 200 then
            (case map_of (resp_headers response) ''Authorization'' of
               None \<Rightarrow> (Inl (SyconApiBadResponseException
                             ''Authorization token not in received response''), st')
             | Some h \<Rightarrow> (Inr (), st'\<lparr>token := Some h\<rparr>))
          else (Inr (), st'))"
  by (auto simp add: Let_def renew_token_def get_request_eq renew_req_def format_header_token_empty RENEW_def
      split: prod.splits sum.splits option.splits)

lemma authenticate_eq:
  "authenticate self e st =
     (case retry (send e (login_req self)) (st\<lparr>calls := calls st @ [login_req self]\<rparr>) of
        (Inl x, st') \<Rightarrow> (Inl x, st')
      | (Inr response, st') \<Rightarrow>
          if status_code response = 200
          then (Inr (), st'\<lparr>token := map_of (resp_headers response) ''Authorization''\<rparr>)
          else (Inr (), st'))"
  by (simp add: Let_def authenticate_def post_request_eq login_req_def
      format_header_content_type_json_empty LOGIN_def)

text \<open>
  Claim C1 (the code departs from it). \<^verbatim>\<open>check_token\<close> sends its GET through the
  retry-decorated \<^verbatim>\<open>_get_request\<close>, which raises for every status from 400 to 499. So
  for every session, whenever the server answers the check request with such a status
  (401 for an expired token), \<^verbatim>\<open>check_token\<close> does not return \<^verbatim>\<open>False\<close>: it raises
  \<open>BadResponse\<close> after one exchange, and the token is left as it was.
\<close>

theorem check_token_4xx_raises:
  assumes "net e (http_log st) (check_req self st) = Reply rep"
      and "client_error_status rep"
  shows "check_token self e st
           = (Inl (bad_response_of e rep), logged [check_req self st] [check_req self st] st)"
  by (simp add: check_token_eq retried_send_4xx[OF assms])

lemma str_401: "str_atoms (JInt 401) = ''401''"
  by (simp add: str_atoms_def str_nat.simps)

text \<open>The case of the test suite, a 401 answer to a session holding a token, without the
  mock of \<^verbatim>\<open>_get_request\<close>.\<close>

theorem check_token_401_raises:
  "check_token (SyconApi 0 ''u'' ''p'') (always (FakeResponse 401 None ''expired'' []))
       \<lparr>token = Some ''oldtoken'', http_log = [], calls = []\<rparr>
     = (Inl (SyconApiBadResponseException ''Invalid response from server 401 : expired''),
        \<lparr>token = Some ''oldtoken'',
         http_log = [get_req [(''Authorization'', ''Bearer oldtoken'')]
                       ''https://cloud.sycon.io/auth/check'' None],
         calls = [get_req [(''Authorization'', ''Bearer oldtoken'')]
                    ''https://cloud.sycon.io/auth/check'' None]\<rparr>)"
  using check_token_4xx_raises[of "always (FakeResponse 401 None ''expired'' [])"
      "\<lparr>token = Some ''oldtoken'', http_log = [], calls = []\<rparr>" "SyconApi 0 ''u'' ''p''"
      "FakeResponse 401 None ''expired'' []"]
  by (simp add: always_def FakeResponse_def client_error_status_def bad_response_of_def
      logged_def check_req_def bearer_def token_str_def SyconApi_def str_401)

text \<open>
  Claim C3 (the code departs from it). When the server answers the login request with
  status 200 and no \<^verbatim>\<open>Authorization\<close> header, \<^verbatim>\<open>authenticate\<close> raises nothing: it returns
  normally after one exchange and assigns \<^verbatim>\<open>None\<close> to the token, also over a token that
  the session held before.
\<close>

theorem authenticate_200_without_header:
  assumes "net e (http_log st) (login_req self) = Reply rep"
      and "status_code rep = 200"
      and "map_of (resp_headers rep) ''Authorization'' = None"
  shows "authenticate self e st
           = (Inr (), (logged [login_req self] [login_req self] st)\<lparr>token := None\<rparr>)"
proof -
  have "\<not> server_error_status rep" "\<not> client_error_status rep"
    using assms(2) by (simp_all add: server_error_status_def client_error_status_def)
  then show ?thesis
    using assms by (simp add: authenticate_eq retried_send_ok)
qed

text \<open>A session holding a token loses it silently.\<close>

theorem authenticate_200_without_header_witness:
  "authenticate (SyconApi 0 ''u'' ''p'') (always (FakeResponse 200 None [] []))
       \<lparr>token = Some ''oldtoken'', http_log = [], calls = []\<rparr>
     = (Inr (),
        \<lparr>token = None,
         http_log = [login_req (SyconApi 0 ''u'' ''p'')],
         calls = [login_req (SyconApi 0 ''u'' ''p'')]\<rparr>)"
  using authenticate_200_without_header[of "always (FakeResponse 200 None [] [])"
      "\<lparr>token = Some ''oldtoken'', http_log = [], calls = []\<rparr>" "SyconApi 0 ''u'' ''p''"
      "FakeResponse 200 None [] []"]
  by (simp add: always_def FakeResponse_def logged_def)

text \<open>
  Claim C4, as amended. For every session with a current token \<open>t\<close>, \<^verbatim>\<open>renew_token\<close>
  sends a GET to the renew endpoint whose only header is
  \<^verbatim>\<open>Authorization: Bearer t\<close> (no \<^verbatim>\<open>Renew\<close> header), between one and three times and logged
  as one call. When the answer is a 200 with an \<^verbatim>\<open>Authorization\<close> header, its value
  replaces the current token; when the answer is a 200 without that header, the call
  fails with \<open>BadResponse\<close> and the token stays.
\<close>

theorem renew_token_request:
  assumes "token st = Some t"
  shows "renew_req self st =
           \<lparr>meth = GET, url = server self @ ''/auth/renew'',
            req_headers = [(''Authorization'', ''Bearer '' @ t)], params = None, data = None\<rparr>
       \<and> (\<exists>n. 1 \<le> n \<and> n \<le> 3 \<and>
             snd (renew_token self e st) = (logged [renew_req self st] (replicate n (renew_req self st)) st)
                \<lparr>token := token (snd (renew_token self e st))\<rparr>)
       \<and> (\<forall>rep h. net e (http_log st) (renew_req self st) = Reply rep \<and> status_code rep = 200 \<and>
             map_of (resp_headers rep) ''Authorization'' = Some h \<longrightarrow>
             renew_token self e st
               = (Inr (), (logged [renew_req self st] [renew_req self st] st)\<lparr>token := Some h\<rparr>))
       \<and> (\<forall>rep. net e (http_log st) (renew_req self st) = Reply rep \<and> status_code rep = 200 \<and>
             map_of (resp_headers rep) ''Authorization'' = None \<longrightarrow>
             renew_token self e st
               = (Inl (SyconApiBadResponseException ''Authorization token not in received response''),
                  logged [renew_req self st] [renew_req self st] st))"
proof (intro conjI allI impI)
  show "renew_req self st =
           \<lparr>meth = GET, url = server self @ ''/auth/renew'',
            req_headers = [(''Authorization'', ''Bearer '' @ t)], params = None, data = None\<rparr>"
    using assms by (simp add: renew_req_def get_req_def bearer_def token_str_def)
next
  let ?r = "renew_req self st"
  obtain n where n: "1 \<le> n" "n \<le> 3"
     "snd (retry (send e ?r) (st\<lparr>calls := calls st @ [?r]\<rparr>)) = logged [?r] (replicate n ?r) st"
    using retried_send_calls_state[of e ?r st] by blast
  obtain res st' where r: "retry (send e ?r) (st\<lparr>calls := calls st @ [?r]\<rparr>) = (res, st')"
    by (cases "retry (send e ?r) (st\<lparr>calls := calls st @ [?r]\<rparr>)")
  with n(3) have st': "st' = logged [?r] (replicate n ?r) st" by simp
  have "snd (renew_token self e st) = (logged [?r] (replicate n ?r) st)
                \<lparr>token := token (snd (renew_token self e st))\<rparr>"
    by (simp add: renew_token_eq r st' logged_def split: sum.splits option.splits)
  with n(1,2) show "\<exists>n. 1 \<le> n \<and> n \<le> 3 \<and>
             snd (renew_token self e st) = (logged [?r] (replicate n ?r) st)
                \<lparr>token := token (snd (renew_token self e st))\<rparr>" by blast
next
  fix rep h
  assume a: "net e (http_log st) (renew_req self st) = Reply rep \<and> status_code rep = 200 \<and>
             map_of (resp_headers rep) ''Authorization'' = Some h"
  then have "\<not> server_error_status rep" "\<not> client_error_status rep"
    by (simp_all add: server_error_status_def client_error_status_def)
  with a show "renew_token self e st
               = (Inr (), (logged [renew_req self st] [renew_req self st] st)\<lparr>token := Some h\<rparr>)"
    by (simp add: renew_token_eq retried_send_ok)
next
  fix rep
  assume a: "net e (http_log st) (renew_req self st) = Reply rep \<and> status_code rep = 200 \<and>
             map_of (resp_headers rep) ''Authorization'' = None"
  then have "\<not> server_error_status rep" "\<not> client_error_status rep"
    by (simp_all add: server_error_status_def client_error_status_def)
  with a show "renew_token self e st
               = (Inl (SyconApiBadResponseException ''Authorization token not in received response''),
                  logged [renew_req self st] [renew_req self st] st)"
    by (simp add: renew_token_eq retried_send_ok)
qed

text \<open>The two cases of the test suite.\<close>

theorem renew_token_request_witness:
  "renew_token (SyconApi 0 ''u'' ''p'') (always (FakeResponse 200 None [] [(''Authorization'', ''newtoken'')]))
       \<lparr>token = Some ''oldtoken'', http_log = [], calls = []\<rparr>
     = (Inr (),
        \<lparr>token = Some ''newtoken'',
         http_log = [\<lparr>meth = GET, url = ''https://cloud.sycon.io/auth/renew'',
            req_headers = [(''Authorization'', ''Bearer oldtoken'')], params = None, data = None\<rparr>],
         calls = [\<lparr>meth = GET, url = ''https://cloud.sycon.io/auth/renew'',
            req_headers = [(''Authorization'', ''Bearer oldtoken'')], params = None, data = None\<rparr>]\<rparr>)
   \<and> renew_token (SyconApi 0 ''u'' ''p'') (always (FakeResponse 200 None [] []))
       \<lparr>token = Some ''oldtoken'', http_log = [], calls = []\<rparr>
     = (Inl (SyconApiBadResponseException ''Authorization token not in received response''),
        \<lparr>token = Some ''oldtoken'',
         http_log = [\<lparr>meth = GET, url = ''https://cloud.sycon.io/auth/renew'',
            req_headers = [(''Authorization'', ''Bearer oldtoken'')], params = None, data = None\<rparr>],
         calls = [\<lparr>meth = GET, url = ''https://cloud.sycon.io/auth/renew'',
            req_headers = [(''Authorization'', ''Bearer oldtoken'')], params = None, data = None\<rparr>]\<rparr>)"
  using renew_token_request[of "\<lparr>token = Some ''oldtoken'', http_log = [], calls = []\<rparr>" "''oldtoken''"
      "SyconApi 0 ''u'' ''p''" "always (FakeResponse 200 None [] [(''Authorization'', ''newtoken'')])"]
    renew_token_request[of "\<lparr>token = Some ''oldtoken'', http_log = [], calls = []\<rparr>" "''oldtoken''"
      "SyconApi 0 ''u'' ''p''" "always (FakeResponse 200 None [] [])"]
  by (simp add: always_def FakeResponse_def logged_def SyconApi_def)

text \<open>Claim C4 as stated fails: no request of a renewal carries the current token in a
  \<^verbatim>\<open>Renew\<close> header.\<close>

theorem renew_token_sends_no_Renew_header:
  "\<not> (\<exists>req \<in> set (http_log (snd (renew_token (SyconApi 0 ''u'' ''p'')
                   (always (FakeResponse 200 None [] [(''Authorization'', ''newtoken'')]))
                   \<lparr>token = Some ''oldtoken'', http_log = [], calls = []\<rparr>))).
         map_of (req_headers req) ''Renew'' = Some ''oldtoken'')"
proof -
  let ?e = "always (FakeResponse 200 None [] [(''Authorization'', ''newtoken'')])"
  let ?st = "\<lparr>token = Some ''oldtoken'', http_log = [], calls = []\<rparr>"
  let ?self = "SyconApi 0 ''u'' ''p''"
  have "\<not> server_error_status (FakeResponse 200 None [] [(''Authorization'', ''newtoken'')])"
       "\<not> client_error_status (FakeResponse 200 None [] [(''Authorization'', ''newtoken'')])"
    by (simp_all add: server_error_status_def client_error_status_def FakeResponse_def)
  then have "retry (send ?e (renew_req ?self ?st)) (?st\<lparr>calls := calls ?st @ [renew_req ?self ?st]\<rparr>)
     = (Inr (FakeResponse 200 None [] [(''Authorization'', ''newtoken'')]),
        logged [renew_req ?self ?st] [renew_req ?self ?st] ?st)"
    by (intro retried_send_ok) (simp_all add: always_def)
  then have "http_log (snd (renew_token ?self ?e ?st)) = [renew_req ?self ?st]"
    by (simp add: renew_token_eq FakeResponse_def)
  then show ?thesis
    by (simp add: renew_req_def get_req_def bearer_def)
qed

section \<open>Validator: properties\<close>

lemma cmatch_Digit_digits: "(\<forall>x\<in>set u. cmatch Digit x) = digits u"
  by (simp add: digits_def)

lemma rmatch_Atom_iff:
  "t \<in> set (rmatch (Atom c) s) \<longleftrightarrow> (\<exists>x. s = x # t \<and> cmatch c x)"
  by (cases s) auto

lemma rmatch_Repeat_iff:
  "t \<in> set (rmatch (Repeat c n) s) \<longleftrightarrow> (\<exists>u. s = u @ t \<and> length u = n \<and> (\<forall>x\<in>set u. cmatch c x))"
proof
  assume "t \<in> set (rmatch (Repeat c n) s)"
  then have "n \<le> length s" "list_all (cmatch c) (take n s)" "t = drop n s"
    by (auto split: if_splits)
  then have "s = take n s @ t \<and> length (take n s) = n \<and> (\<forall>x\<in>set (take n s). cmatch c x)"
    by (simp add: list_all_iff)
  then show "\<exists>u. s = u @ t \<and> length u = n \<and> (\<forall>x\<in>set u. cmatch c x)" by blast
next
  assume "\<exists>u. s = u @ t \<and> length u = n \<and> (\<forall>x\<in>set u. cmatch c x)"
  then show "t \<in> set (rmatch (Repeat c n) s)"
    by (auto simp: list_all_iff)
qed

lemma rmatch_Plus_iff:
  "t \<in> set (rmatch (Plus c) s) \<longleftrightarrow> (\<exists>u. s = u @ t \<and> u \<noteq> [] \<and> (\<forall>x\<in>set u. cmatch c x))"
proof
  assume "t \<in> set (rmatch (Plus c) s)"
  then obtain k where k: "1 \<le> k" "k \<le> length (takeWhile (cmatch c) s)" "t = drop k s"
    by auto
  have "take k s = take k (takeWhile (cmatch c) s)"
    using k(2) by (metis append_eq_conv_conj takeWhile_dropWhile_id take_append min.absorb2 append_Nil2 diff_is_0_eq take_0 length_take min.commute)
  then have "\<forall>x\<in>set (take k s). cmatch c x"
    by (metis in_set_takeD set_takeWhileD)
  moreover have "take k s \<noteq> []" using k by (cases s) auto
  moreover have "s = take k s @ t" using k(3) by simp
  ultimately show "\<exists>u. s = u @ t \<and> u \<noteq> [] \<and> (\<forall>x\<in>set u. cmatch c x)" by blast
next
  assume "\<exists>u. s = u @ t \<and> u \<noteq> [] \<and> (\<forall>x\<in>set u. cmatch c x)"
  then obtain u where u: "s = u @ t" "u \<noteq> []" "\<forall>x\<in>set u. cmatch c x" by blast
  have "takeWhile (cmatch c) s = u @ takeWhile (cmatch c) t"
    using u by (simp add: takeWhile_append2)
  then have "length u \<le> length (takeWhile (cmatch c) s)" by simp
  moreover have "1 \<le> length u" using u(2) by (cases u) auto
  moreover have "t = drop (length u) s" using u(1) by simp
  ultimately have "length u \<in> set (rev [1 ..< Suc (length (takeWhile (cmatch c) s))])"
    and "t = drop (length u) s"
    by (auto simp del: upt_Suc)
  then have "t \<in> (\<lambda>k. drop k s) ` set (rev [1 ..< Suc (length (takeWhile (cmatch c) s))])"
    by (rule image_eqI[rotated])
  then show "t \<in> set (rmatch (Plus c) s)"
    by (simp only: rmatch.simps set_map)
qed

lemma rmatch_Concat_Nil_iff: "t \<in> set (rmatch (Concat []) s) \<longleftrightarrow> t = s"
  by auto

lemma rmatch_Concat_Cons_iff:
  "t \<in> set (rmatch (Concat (r # rs)) s) \<longleftrightarrow> (\<exists>m \<in> set (rmatch r s). t \<in> set (rmatch (Concat rs) m))"
  by auto

lemma rmatch_Optional_iff:
  "t \<in> set (rmatch (Optional r) s) \<longleftrightarrow> t = s \<or> t \<in> set (rmatch r s)"
  by auto


lemma fullmatch_iso_instant_form: "fullmatch iso_instant_re s \<longleftrightarrow> iso_instant_form s"
proof
  assume "fullmatch iso_instant_re s"
  then show "iso_instant_form s"
    unfolding fullmatch_def iso_instant_re_def iso_instant_form_def Bex_def
      rmatch_Concat_Cons_iff rmatch_Concat_Nil_iff rmatch_Atom_iff rmatch_Repeat_iff
      rmatch_Plus_iff rmatch_Optional_iff cmatch_Digit_digits cmatch.simps
    apply (elim exE conjE disjE)
     apply (rule_tac x=u in exI, rule_tac x=ua in exI, rule_tac x=ub in exI,
            rule_tac x=uc in exI, rule_tac x=ud in exI, rule_tac x=ue in exI,
            rule_tac x="[]" in exI)
     apply simp
    apply (rule_tac x=u in exI, rule_tac x=ua in exI, rule_tac x=ub in exI,
            rule_tac x=uc in exI, rule_tac x=ud in exI, rule_tac x=ue in exI,
            rule_tac x="CHR ''.'' # uf" in exI)
    apply simp
    done
next
  assume "iso_instant_form s"
  then obtain YYYY MM DD hh mm ss fraction where
    s: "s = YYYY @ ''-'' @ MM @ ''-'' @ DD @ ''T'' @ hh @ '':'' @ mm @ '':'' @ ss @ fraction @ ''Z''"
    and d: "length YYYY = 4" "digits YYYY" "length MM = 2" "digits MM"
         "length DD = 2" "digits DD" "length hh = 2" "digits hh"
         "length mm = 2" "digits mm" "length ss = 2" "digits ss"
    and f: "fraction = [] \<or> (\<exists>ds. fraction = ''.'' @ ds \<and> ds \<noteq> [] \<and> digits ds)"
    unfolding iso_instant_form_def by blast
  show "fullmatch iso_instant_re s"
    unfolding fullmatch_def iso_instant_re_def Bex_def
      rmatch_Concat_Cons_iff rmatch_Concat_Nil_iff rmatch_Atom_iff rmatch_Repeat_iff
      rmatch_Plus_iff rmatch_Optional_iff cmatch_Digit_digits cmatch.simps
    apply (rule exI[of _ "''-'' @ MM @ ''-'' @ DD @ ''T'' @ hh @ '':'' @ mm @ '':'' @ ss @ fraction @ ''Z''"], rule conjI)
     apply (rule exI[of _ YYYY], simp add: s d)
    apply (rule exI[of _ "MM @ ''-'' @ DD @ ''T'' @ hh @ '':'' @ mm @ '':'' @ ss @ fraction @ ''Z''"], rule conjI, simp)
    apply (rule exI[of _ "''-'' @ DD @ ''T'' @ hh @ '':'' @ mm @ '':'' @ ss @ fraction @ ''Z''"], rule conjI)
     apply (rule exI[of _ MM], simp add: d)
    apply (rule exI[of _ "DD @ ''T'' @ hh @ '':'' @ mm @ '':'' @ ss @ fraction @ ''Z''"], rule conjI, simp)
    apply (rule exI[of _ "''T'' @ hh @ '':'' @ mm @ '':'' @ ss @ fraction @ ''Z''"], rule conjI)
     apply (rule exI[of _ DD], simp add: d)
    apply (rule exI[of _ "hh @ '':'' @ mm @ '':'' @ ss @ fraction @ ''Z''"], rule conjI, simp)
    apply (rule exI[of _ "'':'' @ mm @ '':'' @ ss @ fraction @ ''Z''"], rule conjI)
     apply (rule exI[of _ hh], simp add: d)
    apply (rule exI[of _ "mm @ '':'' @ ss @ fraction @ ''Z''"], rule conjI, simp)
    apply (rule exI[of _ "'':'' @ ss @ fraction @ ''Z''"], rule conjI)
     apply (rule exI[of _ mm], simp add: d)
    apply (rule exI[of _ "ss @ fraction @ ''Z''"], rule conjI, simp)
    apply (rule exI[of _ "fraction @ ''Z''"], rule conjI)
     apply (rule exI[of _ ss], simp add: d)
    apply (rule exI[of _ "''Z''"], rule conjI)
    using f apply (elim disjE exE conjE)
      apply simp
     apply (rule disjI2, rule_tac x="ds @ ''Z''" in exI, simp)
    apply simp
    done
qed

lemma raise_on_date_iff:
  "raise_on_date_ISO_8601_bad_format s = (if iso_instant_form s then Inr () else Inl date_format_error)"
  by (simp add: raise_on_date_ISO_8601_bad_format_def fullmatch_iso_instant_form date_format_error_def)









text \<open>
  Claim C6. For every pair of optional limits: both absent raises \<open>MissingParameters\<close>,
  both present raises \<open>InvalidParameters\<close>, exactly one present passes the check whatever
  its value; the arguments of the request then hold that limit under its own key, equal to
  10000 when it exceeds 10000 and unchanged otherwise, and no entry for the other limit.
\<close>
theorem limit_validation:
  "raise_on_threshold_presence None None = Inl missing_limit_error
   \<and> raise_on_threshold_presence (Some h) (Some t) = Inl both_limits_error
   \<and> raise_on_threshold_presence (Some h) None = Inr ()
   \<and> raise_on_threshold_presence None (Some t) = Inr ()
   \<and> map_of (fill_get_data_args [] start_d end_d (Some h) None ext) ''headLimit''
       = Some (AInt (if h > 10000 then 10000 else h))
   \<and> map_of (fill_get_data_args [] start_d end_d (Some h) None ext) ''tailLimit'' = None
   \<and> map_of (fill_get_data_args [] start_d end_d None (Some t) ext) ''tailLimit''
       = Some (AInt (if t > 10000 then 10000 else t))
   \<and> map_of (fill_get_data_args [] start_d end_d None (Some t) ext) ''headLimit'' = None"
  by (cases ext)
     (simp_all add: raise_on_threshold_presence_def missing_limit_error_def both_limits_error_def
       fill_get_data_args_def Let_def k_size_batch_limit_def update_conv')

text \<open>The values of the test suite, and a negative limit, which passes unchanged.\<close>

theorem limit_validation_witness:
  "fill_get_data_args [] ''s'' ''e'' (Some 10100) None None
     = [(''start'', AStr ''s''), (''end'', AStr ''e''), (''headLimit'', AInt 10000)]
   \<and> fill_get_data_args [] ''s'' ''e'' None (Some 10000) (Some ''ext123'')
     = [(''start'', AStr ''s''), (''end'', AStr ''e''), (''tailLimit'', AInt 10000),
        (''externalSensorId'', AStr ''ext123'')]
   \<and> map_of (fill_get_data_args [] ''s'' ''e'' None (Some (- 5)) None) ''tailLimit'' = Some (AInt (- 5))
   \<and> raise_on_threshold_presence (Some 1) (Some 2) = Inl both_limits_error"
  using limit_validation[of 1 2 "''s''" "''e''" None] limit_validation[of 1 "- 5" "''s''" "''e''" None]
  by (simp add: fill_get_data_args_def Let_def k_size_batch_limit_def)

section \<open>Query dispatcher and result cache: properties\<close>

lemma raise_on_threshold_presence_cases:
  "raise_on_threshold_presence h t =
     (if h = None \<and> t = None then Inl missing_limit_error
      else if h \<noteq> None \<and> t \<noteq> None then Inl both_limits_error else Inr ())"
  by (simp add: raise_on_threshold_presence_def missing_limit_error_def both_limits_error_def)

lemma validated_args_invalid:
  assumes "invalid_query q"
  shows "\<exists>x. validated_args q = Inl x \<and> is_validation_failure x"
  using assms
  by (auto simp add: validated_args_def invalid_query_def is_validation_failure_def
      raise_on_threshold_presence_cases raise_on_date_iff split: sum.splits)

lemma validated_args_valid:
  assumes "\<not> invalid_query q"
  shows "validated_args q =
     Inr (fill_get_data_args [] (start_date q) (end_date q) (head_limit q) (tail_limit q)
            (external_sensor_id q))"
  using assms
  by (auto simp add: validated_args_def invalid_query_def
      raise_on_threshold_presence_cases raise_on_date_iff split: sum.splits)

lemma validated_args_Inr_valid: "validated_args q = Inr args \<Longrightarrow> \<not> invalid_query q"
  using validated_args_invalid[of q] by auto

subsection \<open>The cache\<close>

lemma lru_cache_hit:
  "map_of cache key = Some v \<Longrightarrow>
     lru_cache n key f (cache, st) = (Inr v, ((key, v) # filter (\<lambda>p. fst p \<noteq> key) cache, st))"
  by (simp add: lru_cache_def)

lemma lru_cache_miss_raise:
  "map_of cache key = None \<Longrightarrow> f st = (Inl x, st') \<Longrightarrow>
     lru_cache n key f (cache, st) = (Inl x, (cache, st'))"
  by (simp add: lru_cache_def)

lemma lru_cache_miss_result:
  "map_of cache key = None \<Longrightarrow> f st = (Inr v, st') \<Longrightarrow>
     lru_cache n key f (cache, st)
       = (Inr v, (if length cache \<ge> n then (key, v) # butlast cache else (key, v) # cache, st'))"
  by (simp add: lru_cache_def)

lemma lru_cache_Inr_cases:
  assumes "lru_cache n key f (cache, st) = (Inr v, (cache', st'))"
  shows "(map_of cache key = Some v \<and> st' = st \<and> cache' = (key, v) # filter (\<lambda>p. fst p \<noteq> key) cache)
       \<or> (map_of cache key = None \<and> f st = (Inr v, st')
            \<and> cache' = (if length cache \<ge> n then (key, v) # butlast cache else (key, v) # cache))"
  using assms
  by (auto simp add: lru_cache_def split: option.splits prod.splits sum.splits if_splits)







lemma lru_cache_valid_only:
  assumes "caches_valid_only args_of cache"
      and "\<And>v st'. f st = (Inr v, st') \<Longrightarrow> \<not> invalid_query (args_of key)"
  shows "caches_valid_only args_of (fst (snd (lru_cache n key f (cache, st))))"
proof (cases "map_of cache key")
  case None
  show ?thesis
  proof (cases "f st")
    case (Pair r st')
    show ?thesis
    proof (cases r)
      case (Inl x)
      then show ?thesis using assms(1) None Pair by (simp add: lru_cache_def)
    next
      case (Inr v)
      then have "\<not> invalid_query (args_of key)" using assms(2) Pair by blast
      then show ?thesis
        using assms(1) None Pair Inr
        by (auto simp add: lru_cache_def caches_valid_only_def dest: in_set_butlastD)
    qed
  qed
next
  case (Some v)
  then have "(key, v) \<in> set cache" by (rule map_of_SomeD)
  then have "\<not> invalid_query (args_of key)"
    using assms(1) by (auto simp: caches_valid_only_def)
  then show ?thesis
    using assms(1) Some by (auto simp add: lru_cache_def caches_valid_only_def)
qed


lemma get_request_state:
  "\<exists>n. 1 \<le> n \<and> n \<le> 3 \<and>
     snd (get_request e hs u a st) = logged [get_req hs u a] (replicate n (get_req hs u a)) st"
  unfolding get_request_eq by (rule retried_send_calls_state)

lemma get_request_calls [simp]:
  "calls (snd (get_request e hs u a st)) = calls st @ [get_req hs u a]"
  using get_request_state[of e hs u a st] by auto

lemma get_request_token [simp]:
  "token (snd (get_request e hs u a st)) = token st"
  using get_request_state[of e hs u a st] by auto

lemma get_request_calls': "get_request e hs u a st = (r, st') \<Longrightarrow> calls st' = calls st @ [get_req hs u a]"
  using get_request_calls[of e hs u a st] by simp

lemma get_request_token': "get_request e hs u a st = (r, st') \<Longrightarrow> token st' = token st"
  using get_request_token[of e hs u a st] by simp

lemma data_request_eq:
  "get_req (format_header_token tok []) (server self @ DATA d (field_value f)) (Some args)
     = data_request self tok d f args"
  by (simp add: data_request_def)

subsection \<open>The data methods\<close>

lemma get_data_from_device_wrapped_invalid:
  assumes "invalid_query q"
  shows "\<exists>x. is_validation_failure x \<and> get_data_from_device_wrapped self e d q st = (Inl x, st)"
  using validated_args_invalid[OF assms]
  by (auto simp: get_data_from_device_wrapped_def)



lemma get_data_from_devices_wrapped_invalid:
  assumes "invalid_query q"
  shows "\<exists>x. is_validation_failure x \<and> get_data_from_devices_wrapped self e ds q st = (Inl x, st)"
  using validated_args_invalid[OF assms]
  by (auto simp: get_data_from_devices_wrapped_def)

lemma get_data_from_all_devices_wrapped_invalid:
  assumes "invalid_query q"
  shows "\<exists>x. is_validation_failure x \<and> get_data_from_all_devices_wrapped self e q st = (Inl x, st)"
  using validated_args_invalid[OF assms]
  by (auto simp: get_data_from_all_devices_wrapped_def)

lemma get_data_from_device_wrapped_Inr_valid:
  "get_data_from_device_wrapped self e d q st = (Inr r, st') \<Longrightarrow> \<not> invalid_query q"
  by (auto simp: get_data_from_device_wrapped_def split: sum.splits dest: validated_args_Inr_valid)

lemma get_data_from_devices_wrapped_Inr_valid:
  "get_data_from_devices_wrapped self e ds q st = (Inr r, st') \<Longrightarrow> \<not> invalid_query q"
  by (auto simp: get_data_from_devices_wrapped_def split: sum.splits dest: validated_args_Inr_valid)

lemma get_data_from_all_devices_wrapped_Inr_valid:
  "get_data_from_all_devices_wrapped self e q st = (Inr r, st') \<Longrightarrow> \<not> invalid_query q"
  by (auto simp: get_data_from_all_devices_wrapped_def split: sum.splits dest: validated_args_Inr_valid)


text \<open>The empty cache holds no invalid query, and no call of a data method adds one.\<close>

lemma caches_stay_valid:
  "caches_valid_only args_of []"
  "caches_valid_only (\<lambda>k. snd (snd k)) c1 \<Longrightarrow>
     caches_valid_only (\<lambda>k. snd (snd k)) (fst (snd (get_data_from_device self e device_id q (c1, st))))"
  "caches_valid_only (\<lambda>k. snd (snd k)) c2 \<Longrightarrow>
     caches_valid_only (\<lambda>k. snd (snd k)) (fst (snd (get_data_from_devices self e devices_id q (c2, st))))"
  "caches_valid_only snd c3 \<Longrightarrow>
     caches_valid_only snd (fst (snd (get_data_from_all_devices self e q (c3, st))))"
proof -
  show "caches_valid_only args_of []" by (simp add: caches_valid_only_def)
  show "caches_valid_only (\<lambda>k. snd (snd k)) c1 \<Longrightarrow>
     caches_valid_only (\<lambda>k. snd (snd k)) (fst (snd (get_data_from_device self e device_id q (c1, st))))"
    unfolding get_data_from_device_def
    by (rule lru_cache_valid_only) (auto dest: get_data_from_device_wrapped_Inr_valid)
  show "caches_valid_only (\<lambda>k. snd (snd k)) c2 \<Longrightarrow>
     caches_valid_only (\<lambda>k. snd (snd k)) (fst (snd (get_data_from_devices self e devices_id q (c2, st))))"
    unfolding get_data_from_devices_def
    by (rule lru_cache_valid_only) (auto dest: get_data_from_devices_wrapped_Inr_valid)
  show "caches_valid_only snd c3 \<Longrightarrow>
     caches_valid_only snd (fst (snd (get_data_from_all_devices self e q (c3, st))))"
    unfolding get_data_from_all_devices_def
    by (rule lru_cache_valid_only) (auto dest: get_data_from_all_devices_wrapped_Inr_valid)
qed








subsection \<open>The all-devices method\<close>

lemma present_ids_Nil [simp]: "present_ids [] = []"
  by (simp add: present_ids_def map_filter_simps)

lemma present_ids_Cons:
  "present_ids (d # ds) = (case record_id d of None \<Rightarrow> present_ids ds | Some i \<Rightarrow> i # present_ids ds)"
  unfolding present_ids_def by (simp add: map_filter_simps)

lemma get_request_Inr_state:
  assumes "get_request e hs u a st = (r, st')"
  shows "calls st' = calls st @ [get_req hs u a]" "token st' = token st"
  using get_request_calls'[OF assms] get_request_token'[OF assms] by auto

lemma all_devices_loop_records:
  assumes "list_all is_dict ds"
      and "all_devices_loop self e f args ds acc st = (Inr data_out, st')"
  shows "calls st' = calls st @ map (\<lambda>i. data_request self (token st) (str_of e i) f args) (present_ids ds)
       \<and> token st' = token st
       \<and> fst ` set data_out = fst ` set acc \<union> str_of e ` set (present_ids ds)"
  using assms
proof (induction ds arbitrary: acc st)
  case Nil
  then show ?case by simp
next
  case (Cons d ds)
  from Cons.prems(1) have "is_dict d" and rest: "list_all is_dict ds" by simp_all
  then obtain kvs where d: "d = JObj kvs" by (cases d) (simp_all add: is_dict_def)
  show ?case
  proof (cases "map_of kvs ''id''")
    case None
    then have "all_devices_loop self e f args ds acc st = (Inr data_out, st')"
      using Cons.prems(2) d by (simp add: py_contains_def)
    from Cons.IH[OF rest this] show ?thesis
      using None d by (simp add: present_ids_Cons record_id_def)
  next
    case (Some i)
    let ?req = "get_request e (format_header_token (token st) [])
                  (server self @ DATA (str_of e i) (field_value f)) (Some args) st"
    obtain r st1 where g: "?req = (r, st1)" by (cases ?req)
    from Cons.prems(2) d Some g obtain response where r: "r = Inr response"
      and loop: "all_devices_loop self e f args ds
                   (AList.update (str_of e i) (body_of response) acc) st1 = (Inr data_out, st')"
      by (cases r) (auto simp: py_contains_def py_get_def Let_def)
    note s1 = get_request_Inr_state[OF g]
    from Cons.IH[OF rest loop] s1 show ?thesis
      using Some d by (auto simp: present_ids_Cons record_id_def data_request_eq dom_update)
  qed
qed

lemma get_data_from_all_devices_wrapped_steps:
  assumes "validated_args q = Inr args"
      and "manage_token self e st = (Inr u, st1)"
      and "get_devices_list self e st1 = (Inr (JArr ds), st2)"
  shows "get_data_from_all_devices_wrapped self e q st
           = all_devices_loop self e (field q) args ds [] st2"
  using assms by (simp add: get_data_from_all_devices_wrapped_def py_iter_def)

lemma lru_cache_miss_state:
  "map_of cache key = None \<Longrightarrow> snd (snd (lru_cache n key f (cache, st))) = snd (f st)"
  by (auto simp: lru_cache_def split: prod.splits sum.splits)

lemma all_devices_loop_records_prefix:
  assumes "list_all is_dict ds"
  shows "\<exists>k. calls (snd (all_devices_loop self e f args ds acc st))
           = calls st @ map (\<lambda>i. data_request self (token st) (str_of e i) f args)
                          (take k (present_ids ds))"
  using assms
proof (induction ds arbitrary: acc st)
  case Nil
  then show ?case by simp
next
  case (Cons d ds)
  from Cons.prems(1) have "is_dict d" and rest: "list_all is_dict ds" by simp_all
  then obtain kvs where d: "d = JObj kvs" by (cases d) (simp_all add: is_dict_def)
  show ?case
  proof (cases "map_of kvs ''id''")
    case None
    then show ?thesis
      using Cons.IH[OF rest, of acc st] d by (simp add: py_contains_def present_ids_Cons record_id_def)
  next
    case (Some i)
    let ?req = "get_request e (format_header_token (token st) [])
                  (server self @ DATA (str_of e i) (field_value f)) (Some args) st"
    obtain r st1 where g: "?req = (r, st1)" by (cases ?req)
    note s1 = get_request_Inr_state[OF g]
    show ?thesis
    proof (cases r)
      case (Inl x)
      then have "calls (snd (all_devices_loop self e f args (d # ds) acc st))
         = calls st @ map (\<lambda>i. data_request self (token st) (str_of e i) f args)
                          (take 1 (present_ids (d # ds)))"
        using g s1 Some d
        by (simp add: py_contains_def py_get_def Let_def present_ids_Cons record_id_def data_request_eq)
      then show ?thesis by blast
    next
      case (Inr response)
      let ?acc = "AList.update (str_of e i) (body_of response) acc"
      from Cons.IH[OF rest, of ?acc st1] obtain k where
        k: "calls (snd (all_devices_loop self e f args ds ?acc st1))
           = calls st1 @ map (\<lambda>i. data_request self (token st1) (str_of e i) f args)
                          (take k (present_ids ds))" by blast
      have "calls (snd (all_devices_loop self e f args (d # ds) acc st))
         = calls st @ map (\<lambda>i. data_request self (token st) (str_of e i) f args)
                          (take (Suc k) (present_ids (d # ds)))"
        using g Inr s1 Some d k
        by (simp add: py_contains_def py_get_def Let_def present_ids_Cons record_id_def data_request_eq)
      then show ?thesis by blast
    qed
  qed
qed

text \<open>
  Claim C9. Let \<^verbatim>\<open>get_data_from_all_devices\<close> be called with a query that is not in its
  cache, let validation and token management succeed, and let the list-devices call
  return a JSON array of records (objects). Then the calls of the transport that follow
  the list-devices call are data requests for the string forms of the identifiers
  present, in the order of the list and at most one per record that has an \<^verbatim>\<open>id\<close> field;
  a record without the field gets none. When the call returns a mapping, there is exactly
  one such request per record that has the field, and the keys of the returned mapping
  are exactly the string forms of those identifiers.
\<close>

theorem all_devices_skips_records_without_id:
  assumes "map_of cache (self_id self, q) = None"
      and "validated_args q = Inr args"
      and "manage_token self e st = (Inr u, st1)"
      and "get_devices_list self e st1 = (Inr (JArr devices), st2)"
      and "list_all is_dict devices"
  shows "(\<exists>k. calls (snd (snd (get_data_from_all_devices self e q (cache, st))))
              = calls st2
                  @ map (\<lambda>i. data_request self (token st2) (str_of e i) (field q) args)
                      (take k (present_ids devices)))
       \<and> (\<forall>data_out cache' st'.
             get_data_from_all_devices self e q (cache, st) = (Inr data_out, (cache', st')) \<longrightarrow>
             calls st' = calls st2
                  @ map (\<lambda>i. data_request self (token st2) (str_of e i) (field q) args)
                      (present_ids devices)
             \<and> fst ` set data_out = str_of e ` set (present_ids devices))"
proof (rule conjI)
  have "snd (snd (get_data_from_all_devices self e q (cache, st)))
          = snd (all_devices_loop self e (field q) args devices [] st2)"
    unfolding get_data_from_all_devices_def
    using lru_cache_miss_state[OF assms(1)] get_data_from_all_devices_wrapped_steps[OF assms(2,3,4)]
    by simp
  then show "\<exists>k. calls (snd (snd (get_data_from_all_devices self e q (cache, st))))
              = calls st2
                  @ map (\<lambda>i. data_request self (token st2) (str_of e i) (field q) args)
                      (take k (present_ids devices))"
    using all_devices_loop_records_prefix[OF assms(5), of self e "field q" args "[]" st2] by simp
next
  show "\<forall>data_out cache' st'.
             get_data_from_all_devices self e q (cache, st) = (Inr data_out, (cache', st')) \<longrightarrow>
             calls st' = calls st2
                  @ map (\<lambda>i. data_request self (token st2) (str_of e i) (field q) args)
                      (present_ids devices)
             \<and> fst ` set data_out = str_of e ` set (present_ids devices)"
  proof (intro allI impI)
    fix data_out cache' st'
    assume r: "get_data_from_all_devices self e q (cache, st) = (Inr data_out, (cache', st'))"
    from lru_cache_Inr_cases[OF r[unfolded get_data_from_all_devices_def]] assms(1)
    have "get_data_from_all_devices_wrapped self e q st = (Inr data_out, st')" by auto
    then have "all_devices_loop self e (field q) args devices [] st2 = (Inr data_out, st')"
      using get_data_from_all_devices_wrapped_steps[OF assms(2,3,4)] by simp
    from all_devices_loop_records[OF assms(5) this]
    show "calls st' = calls st2
                  @ map (\<lambda>i. data_request self (token st2) (str_of e i) (field q) args)
                      (present_ids devices)
             \<and> fst ` set data_out = str_of e ` set (present_ids devices)" by simp
  qed
qed

text \<open>The list of the specification's example: the result is keyed by \<^verbatim>\<open>d1\<close> only, after a
  login, a check, the list-devices call and one data call.\<close>

lemma device_server_run:
  "manage_token (SyconApi 0 ''u'' ''p'') device_server init_state
     = (Inr (), session ''tok'' [login_req (SyconApi 0 ''u'' ''p'')])"
  "get_devices_list (SyconApi 0 ''u'' ''p'') device_server
       (session ''tok'' [login_req (SyconApi 0 ''u'' ''p'')])
     = (Inr (JArr [JObj [(''foo'', JStr ''bar'')], JObj [(''id'', JStr ''d1'')]]),
        session ''tok'' [login_req (SyconApi 0 ''u'' ''p''),
          check_req (SyconApi 0 ''u'' ''p'') (session ''tok'' []),
          devices_req (SyconApi 0 ''u'' ''p'') (session ''tok'' [])])"
  "get_data_from_all_devices (SyconApi 0 ''u'' ''p'') device_server temperature_query
       ([], init_state)
     = (Inr [(''d1'', JObj [(''v'', JInt 1)])],
        ([((0, temperature_query), [(''d1'', JObj [(''v'', JInt 1)])])],
         session ''tok'' [login_req (SyconApi 0 ''u'' ''p''),
           check_req (SyconApi 0 ''u'' ''p'') (session ''tok'' []),
           devices_req (SyconApi 0 ''u'' ''p'') (session ''tok'' []),
           data_request (SyconApi 0 ''u'' ''p'') (Some ''tok'') ''d1'' TEMPERATURE_CELSIUS
             temperature_args]))"
  by code_simp+

theorem all_devices_skips_records_without_id_witness:
  "get_data_from_all_devices (SyconApi 0 ''u'' ''p'') device_server temperature_query
       ([], init_state)
     = (Inr [(''d1'', JObj [(''v'', JInt 1)])],
        ([((0, temperature_query), [(''d1'', JObj [(''v'', JInt 1)])])],
         session ''tok'' [login_req (SyconApi 0 ''u'' ''p''),
           check_req (SyconApi 0 ''u'' ''p'') (session ''tok'' []),
           devices_req (SyconApi 0 ''u'' ''p'') (session ''tok'' []),
           data_request (SyconApi 0 ''u'' ''p'') (Some ''tok'') ''d1'' TEMPERATURE_CELSIUS
             temperature_args]))
   \<and> present_ids [JObj [(''foo'', JStr ''bar'')], JObj [(''id'', JStr ''d1'')]] = [JStr ''d1'']
   \<and> fst ` set [(''d1'', JObj [(''v'', JInt 1)])]
       = str_of device_server ` set (present_ids [JObj [(''foo'', JStr ''bar'')], JObj [(''id'', JStr ''d1'')]])
   \<and> str_of device_server ` set (present_ids [JObj [(''foo'', JStr ''bar'')], JObj [(''id'', JStr ''d1'')]])
       = {''d1''}"
proof -
  have h1: "map_of [] (self_id (SyconApi 0 ''u'' ''p''), temperature_query) = None" by simp
  have h2: "validated_args temperature_query = Inr temperature_args" by code_simp
  have h5: "list_all is_dict [JObj [(''foo'', JStr ''bar'')], JObj [(''id'', JStr ''d1'')]]"
    by (simp add: is_dict_def)
  have p: "present_ids [JObj [(''foo'', JStr ''bar'')], JObj [(''id'', JStr ''d1'')]] = [JStr ''d1'']"
    by (simp add: present_ids_Cons record_id_def)
  have s: "str_of device_server (JStr ''d1'') = ''d1''"
    by (simp add: device_server_def str_atoms_def)
  show ?thesis
    using all_devices_skips_records_without_id[OF h1 h2 device_server_run(1) device_server_run(2) h5]
    by (simp add: device_server_run(3) p s)
qed

section \<open>The bearer header\<close>

lemma sends_bearer_refl [simp]: "sends_bearer tok st st"
  by (simp add: sends_bearer_def)

lemma sends_bearer_trans:
  "sends_bearer tok st st1 \<Longrightarrow> sends_bearer tok st1 st2 \<Longrightarrow> sends_bearer tok st st2"
  unfolding sends_bearer_def by fastforce

lemma sends_bearer_get_request:
  "sends_bearer tok st (snd (get_request e (format_header_token tok []) u a st))"
  unfolding sends_bearer_def
  by (simp add: format_header_token_empty get_req_def)

lemma check_token_calls:
  "calls (snd (check_token self e st)) = calls st @ [check_req self st]"
  "token (snd (check_token self e st)) = token st"
proof -
  let ?r = "check_req self st"
  obtain n where "snd (retry (send e ?r) (st\<lparr>calls := calls st @ [?r]\<rparr>)) = logged [?r] (replicate n ?r) st"
    using retried_send_calls_state[of e ?r st] by blast
  then show "calls (snd (check_token self e st)) = calls st @ [check_req self st]"
    "token (snd (check_token self e st)) = token st"
    by (auto simp: check_token_eq split: prod.splits sum.splits)
qed

lemma renew_token_calls:
  "calls (snd (renew_token self e st)) = calls st @ [renew_req self st]"
proof -
  let ?r = "renew_req self st"
  obtain n where "snd (retry (send e ?r) (st\<lparr>calls := calls st @ [?r]\<rparr>)) = logged [?r] (replicate n ?r) st"
    using retried_send_calls_state[of e ?r st] by blast
  then show ?thesis
    by (auto simp: renew_token_eq split: prod.splits sum.splits option.splits)
qed

lemma check_req_headers [simp]: "req_headers (check_req self st) = bearer (token st)"
  by (simp add: check_req_def get_req_def)

lemma renew_req_headers [simp]: "req_headers (renew_req self st) = bearer (token st)"
  by (simp add: renew_req_def get_req_def)

lemma manage_token_sends_bearer:
  assumes "token st \<noteq> None"
  shows "sends_bearer (token st) st (snd (manage_token self e st))"
proof -
  obtain r st1 where c: "check_token self e st = (r, st1)" by (cases "check_token self e st")
  have c1: "calls st1 = calls st @ [check_req self st]" "token st1 = token st"
    using check_token_calls[of self e st] c by simp_all
  have "calls (snd (renew_token self e st1)) = calls st @ [check_req self st, renew_req self st1]"
    using renew_token_calls[of self e st1] c1 by simp
  moreover have "req_headers (renew_req self st1) = bearer (token st)" using c1 by simp
  ultimately have "sends_bearer (token st) st (snd (renew_token self e st1))"
    unfolding sends_bearer_def by simp
  moreover have "sends_bearer (token st) st st1"
    unfolding sends_bearer_def using c1 by simp
  ultimately show ?thesis
    using assms c by (auto simp: manage_token_def split: sum.splits)
qed

lemma get_devices_list_sends_bearer:
  "sends_bearer (token (snd (manage_token self e st))) (snd (manage_token self e st))
     (snd (get_devices_list self e st))"
proof (cases "manage_token self e st")
  case (Pair r st1)
  show ?thesis
  proof (cases r)
    case (Inl x)
    then show ?thesis using Pair by (simp add: get_devices_list_def)
  next
    case (Inr u)
    let ?g = "get_request e (format_header_token (token st1) []) (server self @ DEVICES) None st1"
    have "snd (get_devices_list self e st) = snd ?g"
      using Pair Inr by (simp add: get_devices_list_def Let_def split: prod.splits sum.splits option.splits)
    then show ?thesis using Pair sends_bearer_get_request[of "token st1" st1 e] by simp
  qed
qed

lemma get_data_from_device_wrapped_sends_bearer:
  assumes "validated_args q = Inr args"
  shows "sends_bearer (token (snd (manage_token self e st))) (snd (manage_token self e st))
     (snd (get_data_from_device_wrapped self e d q st))"
proof (cases "manage_token self e st")
  case (Pair r st1)
  show ?thesis
  proof (cases r)
    case (Inl x)
    then show ?thesis using Pair assms by (simp add: get_data_from_device_wrapped_def)
  next
    case (Inr u)
    let ?g = "get_request e (format_header_token (token st1) [])
                (server self @ DATA d (field_value (field q))) (Some args) st1"
    have "snd (get_data_from_device_wrapped self e d q st) = snd ?g"
      using Pair Inr assms
      by (simp add: get_data_from_device_wrapped_def Let_def split: prod.splits sum.splits)
    then show ?thesis using Pair sends_bearer_get_request[of "token st1" st1 e] by simp
  qed
qed

lemma devices_loop_sends_bearer:
  "sends_bearer (token st) st (snd (devices_loop self e f args ds acc st))"
proof (induction ds arbitrary: acc st)
  case Nil
  then show ?case by simp
next
  case (Cons d ds)
  let ?g = "get_request e (format_header_token (token st) [])
              (server self @ DATA d (field_value f)) (Some args) st"
  obtain r st1 where g: "?g = (r, st1)" by (cases ?g)
  have s1: "sends_bearer (token st) st st1" "token st1 = token st"
    using sends_bearer_get_request[of "token st" st e "server self @ DATA d (field_value f)" "Some args"]
      get_request_token'[OF g] g by simp_all
  show ?case
  proof (cases r)
    case (Inl x)
    then show ?thesis using g s1 by (simp add: Let_def)
  next
    case (Inr response)
    have "sends_bearer (token st) st1
            (snd (devices_loop self e f args ds (AList.update d (body_of response) acc) st1))"
      using Cons.IH[where st=st1 and acc="AList.update d (body_of response) acc"] s1(2) by simp
    then show ?thesis using g Inr s1(1) by (auto simp: Let_def intro: sends_bearer_trans)
  qed
qed

lemma all_devices_loop_sends_bearer:
  "sends_bearer (token st) st (snd (all_devices_loop self e f args ds acc st))"
proof (induction ds arbitrary: acc st)
  case Nil
  then show ?case by simp
next
  case (Cons d ds)
  show ?case
  proof (cases "py_contains ''id'' d")
    case (Inl x)
    then show ?thesis by simp
  next
    case (Inr b)
    show ?thesis
    proof (cases b)
      case False
      then show ?thesis using Inr Cons.IH[where st=st and acc=acc] by simp
    next
      case True
      show ?thesis
      proof (cases "py_get ''id'' d")
        case (Inl x)
        then show ?thesis using Inr True by simp
      next
        case (Inr i)
        let ?g = "get_request e (format_header_token (token st) [])
                    (server self @ DATA (str_of e i) (field_value f)) (Some args) st"
        obtain r st1 where g: "?g = (r, st1)" by (cases ?g)
        have s1: "sends_bearer (token st) st st1" "token st1 = token st"
          using sends_bearer_get_request[of "token st" st e
              "server self @ DATA (str_of e i) (field_value f)" "Some args"]
            get_request_token'[OF g] g by simp_all
        show ?thesis
        proof (cases r)
          case (Inl x)
          then show ?thesis using g s1 \<open>py_contains ''id'' d = Inr b\<close> True Inr
            by (simp add: Let_def)
        next
          case (Inr response)
          have "sends_bearer (token st) st1
              (snd (all_devices_loop self e f args ds
                      (AList.update (str_of e i) (body_of response) acc) st1))"
            using Cons.IH[where st=st1 and acc="AList.update (str_of e i) (body_of response) acc"] s1(2) by simp
          then show ?thesis
            using g Inr s1(1) \<open>py_contains ''id'' d = Inr b\<close> True \<open>py_get ''id'' d = Inr i\<close>
            by (auto simp: Let_def intro: sends_bearer_trans)
        qed
      qed
    qed
  qed
qed

lemma get_data_from_devices_wrapped_sends_bearer:
  assumes "validated_args q = Inr args"
  shows "sends_bearer (token (snd (manage_token self e st))) (snd (manage_token self e st))
     (snd (get_data_from_devices_wrapped self e ds q st))"
  using assms devices_loop_sends_bearer[of "snd (manage_token self e st)" self e "field q" args ds "[]"]
  by (auto simp: get_data_from_devices_wrapped_def split: prod.splits sum.splits)

lemma get_data_from_all_devices_wrapped_sends_bearer:
  assumes "validated_args q = Inr args" "manage_token self e st = (Inr u, st1)"
  shows "sends_bearer (token (snd (get_devices_list self e st1))) (snd (get_devices_list self e st1))
     (snd (get_data_from_all_devices_wrapped self e q st))"
  using assms all_devices_loop_sends_bearer[of "snd (get_devices_list self e st1)" self e "field q" args _ "[]"]
  by (auto simp: get_data_from_all_devices_wrapped_def split: prod.splits sum.splits)

lemma authenticate_stores_header:
  assumes "net e (http_log st) (login_req self) = Reply rep" "status_code rep = 200"
  shows "authenticate self e st
           = (Inr (), (logged [login_req self] [login_req self] st)
                        \<lparr>token := map_of (resp_headers rep) ''Authorization''\<rparr>)"
proof -
  have "\<not> server_error_status rep" "\<not> client_error_status rep"
    using assms(2) by (simp_all add: server_error_status_def client_error_status_def)
  then show ?thesis
    using assms by (simp add: authenticate_eq retried_send_ok)
qed

lemma renew_token_stores_header:
  assumes "net e (http_log st) (renew_req self st) = Reply rep" "status_code rep = 200"
    "map_of (resp_headers rep) ''Authorization'' = Some h"
  shows "renew_token self e st
           = (Inr (), (logged [renew_req self st] [renew_req self st] st)\<lparr>token := Some h\<rparr>)"
proof -
  have "\<not> server_error_status rep" "\<not> client_error_status rep"
    using assms(2) by (simp_all add: server_error_status_def client_error_status_def)
  then show ?thesis
    using assms by (simp add: renew_token_eq retried_send_ok)
qed

text \<open>
  Claim C10. \<^verbatim>\<open>authenticate\<close> and \<^verbatim>\<open>renew_token\<close> store the value of the \<^verbatim>\<open>Authorization\<close>
  header of a 200 answer as it is. Every authenticated request carries the one header
  \<^verbatim>\<open>Authorization: Bearer <token>\<close> built from the token held when it is sent: the check
  and renew requests; the requests of token management on a session with a token; the
  list-devices request and the data requests of the three data methods, built from the
  token that token management left. Hence, after a login or a renewal whose answer
  carries \<^verbatim>\<open>Authorization: Bearer x\<close>, the next check is sent with
  \<^verbatim>\<open>Authorization: Bearer Bearer x\<close>.
\<close>

theorem stored_token_sent_behind_bearer:
  "(\<forall>rep h. net e (http_log st) (login_req self) = Reply rep \<and> status_code rep = 200 \<and>
        map_of (resp_headers rep) ''Authorization'' = Some h \<longrightarrow>
        token (snd (authenticate self e st)) = Some h)
   \<and> (\<forall>rep h. net e (http_log st) (renew_req self st) = Reply rep \<and> status_code rep = 200 \<and>
        map_of (resp_headers rep) ''Authorization'' = Some h \<longrightarrow>
        token (snd (renew_token self e st)) = Some h)
   \<and> calls (snd (check_token self e st)) = calls st @ [check_req self st]
   \<and> calls (snd (renew_token self e st)) = calls st @ [renew_req self st]
   \<and> req_headers (check_req self st) = [(''Authorization'', ''Bearer '' @ token_str (token st))]
   \<and> req_headers (renew_req self st) = [(''Authorization'', ''Bearer '' @ token_str (token st))]
   \<and> (token st \<noteq> None \<longrightarrow> sends_bearer (token st) st (snd (manage_token self e st)))
   \<and> (\<forall>st1. st1 = snd (manage_token self e st) \<longrightarrow>
        sends_bearer (token st1) st1 (snd (get_devices_list self e st)))
   \<and> (\<forall>args st1. validated_args q = Inr args \<and> st1 = snd (manage_token self e st) \<longrightarrow>
        sends_bearer (token st1) st1 (snd (get_data_from_device_wrapped self e device_id q st))
        \<and> sends_bearer (token st1) st1 (snd (get_data_from_devices_wrapped self e devices_id q st)))
   \<and> (\<forall>args u st1 st2. validated_args q = Inr args \<and> manage_token self e st = (Inr u, st1) \<and>
        st2 = snd (get_devices_list self e st1) \<longrightarrow>
        sends_bearer (token st2) st2 (snd (get_data_from_all_devices_wrapped self e q st)))
   \<and> (\<forall>rep x. net e (http_log st) (login_req self) = Reply rep \<and> status_code rep = 200 \<and>
        map_of (resp_headers rep) ''Authorization'' = Some (''Bearer '' @ x) \<longrightarrow>
        calls (snd (check_token self e (snd (authenticate self e st))))
          = calls st @ [login_req self,
                        get_req [(''Authorization'', ''Bearer Bearer '' @ x)]
                          (server self @ ''/auth/check'') None])
   \<and> (\<forall>rep x. net e (http_log st) (renew_req self st) = Reply rep \<and> status_code rep = 200 \<and>
        map_of (resp_headers rep) ''Authorization'' = Some (''Bearer '' @ x) \<longrightarrow>
        calls (snd (check_token self e (snd (renew_token self e st))))
          = calls st @ [renew_req self st,
                        get_req [(''Authorization'', ''Bearer Bearer '' @ x)]
                          (server self @ ''/auth/check'') None])"
proof (intro conjI allI impI)
  fix rep h
  assume "net e (http_log st) (login_req self) = Reply rep \<and> status_code rep = 200 \<and>
        map_of (resp_headers rep) ''Authorization'' = Some h"
  then show "token (snd (authenticate self e st)) = Some h"
    by (simp add: authenticate_stores_header)
next
  fix rep h
  assume "net e (http_log st) (renew_req self st) = Reply rep \<and> status_code rep = 200 \<and>
        map_of (resp_headers rep) ''Authorization'' = Some h"
  then show "token (snd (renew_token self e st)) = Some h"
    by (simp add: renew_token_stores_header)
next
  show "calls (snd (check_token self e st)) = calls st @ [check_req self st]"
    by (rule check_token_calls)
  show "calls (snd (renew_token self e st)) = calls st @ [renew_req self st]"
    by (rule renew_token_calls)
  show "req_headers (check_req self st) = [(''Authorization'', ''Bearer '' @ token_str (token st))]"
    by (simp add: bearer_def)
  show "req_headers (renew_req self st) = [(''Authorization'', ''Bearer '' @ token_str (token st))]"
    by (simp add: bearer_def)
next
  assume "token st \<noteq> None"
  then show "sends_bearer (token st) st (snd (manage_token self e st))"
    by (rule manage_token_sends_bearer)
next
  fix st1 assume "st1 = snd (manage_token self e st)"
  then show "sends_bearer (token st1) st1 (snd (get_devices_list self e st))"
    using get_devices_list_sends_bearer[of self e st] by simp
next
  fix args st1
  assume a: "validated_args q = Inr args \<and> st1 = snd (manage_token self e st)"
  then show "sends_bearer (token st1) st1 (snd (get_data_from_device_wrapped self e device_id q st))"
    using get_data_from_device_wrapped_sends_bearer[of q args self e st device_id] by simp
  from a show "sends_bearer (token st1) st1 (snd (get_data_from_devices_wrapped self e devices_id q st))"
    using get_data_from_devices_wrapped_sends_bearer[of q args self e st devices_id] by simp
next
  fix args u st1 st2
  assume "validated_args q = Inr args \<and> manage_token self e st = (Inr u, st1) \<and>
        st2 = snd (get_devices_list self e st1)"
  then show "sends_bearer (token st2) st2 (snd (get_data_from_all_devices_wrapped self e q st))"
    using get_data_from_all_devices_wrapped_sends_bearer[of q args self e st u st1] by simp
next
  fix rep x
  assume a: "net e (http_log st) (login_req self) = Reply rep \<and> status_code rep = 200 \<and>
        map_of (resp_headers rep) ''Authorization'' = Some (''Bearer '' @ x)"
  then have "authenticate self e st
     = (Inr (), (logged [login_req self] [login_req self] st)\<lparr>token := Some (''Bearer '' @ x)\<rparr>)"
    by (simp add: authenticate_stores_header)
  then show "calls (snd (check_token self e (snd (authenticate self e st))))
          = calls st @ [login_req self,
                        get_req [(''Authorization'', ''Bearer Bearer '' @ x)]
                          (server self @ ''/auth/check'') None]"
    by (simp add: check_token_calls check_req_def bearer_def token_str_def)
next
  fix rep x
  assume a: "net e (http_log st) (renew_req self st) = Reply rep \<and> status_code rep = 200 \<and>
        map_of (resp_headers rep) ''Authorization'' = Some (''Bearer '' @ x)"
  then have "renew_token self e st
     = (Inr (), (logged [renew_req self st] [renew_req self st] st)\<lparr>token := Some (''Bearer '' @ x)\<rparr>)"
    by (simp add: renew_token_stores_header)
  then show "calls (snd (check_token self e (snd (renew_token self e st))))
          = calls st @ [renew_req self st,
                        get_req [(''Authorization'', ''Bearer Bearer '' @ x)]
                          (server self @ ''/auth/check'') None]"
    by (simp add: check_token_calls check_req_def bearer_def token_str_def)
qed

text \<open>A login answered with \<^verbatim>\<open>Authorization: Bearer abc\<close>, then a check.\<close>

theorem stored_token_sent_behind_bearer_witness:
  "token (snd (authenticate (SyconApi 0 ''u'' ''p'')
                 (always (FakeResponse 200 None [] [(''Authorization'', ''Bearer abc'')])) init_state))
     = Some ''Bearer abc''
   \<and> calls (snd (check_token (SyconApi 0 ''u'' ''p'')
                 (always (FakeResponse 200 None [] [(''Authorization'', ''Bearer abc'')]))
                 (snd (authenticate (SyconApi 0 ''u'' ''p'')
                   (always (FakeResponse 200 None [] [(''Authorization'', ''Bearer abc'')])) init_state))))
     = [login_req (SyconApi 0 ''u'' ''p''),
        get_req [(''Authorization'', ''Bearer Bearer abc'')] ''https://cloud.sycon.io/auth/check'' None]"
  using stored_token_sent_behind_bearer[of
      "always (FakeResponse 200 None [] [(''Authorization'', ''Bearer abc'')])" init_state
      "SyconApi 0 ''u'' ''p''" temperature_query "''d1''" "[]"]
  by (simp add: always_def FakeResponse_def init_state_def SyconApi_def)

end
